theory Spec2Isabelle
  imports Main "HOL-Library.Word"
begin

unbundle bit_operations_syntax

section \<open>The slave program L293DBoardSerial, revision 1.1.0\<close>

text \<open>
  The program runs on an AVR Arduino: \<open>uint8_t\<close> is 8 bits wide, \<open>int\<close> is 16 bits
  wide and signed, \<open>unsigned long\<close> is 32 bits wide. Words wrap around as the C
  arithmetic does; a comparison of an \<open>unsigned long\<close> with an \<open>int\<close> converts the
  \<open>int\<close> by sign extension (\<open>scast\<close>) and compares unsigned.
\<close>

type_synonym uint8_t = "8 word"
type_synonym int16_t = "16 word"
type_synonym ulong = "32 word"

subsection \<open>Constants of the source\<close>

definition DEVICE_ADDRESS :: uint8_t where
  "DEVICE_ADDRESS = 0"

definition EEPROM_SET_FLAG :: uint8_t where
  "EEPROM_SET_FLAG = 100"

definition SERIAL_MAX_DATA_LENGTH :: int where
  "SERIAL_MAX_DATA_LENGTH = 32"

definition SERIAL_MSG_BEGIN_CHAR :: uint8_t where
  "SERIAL_MSG_BEGIN_CHAR = of_char CHR ''<''"

definition SERIAL_MSG_END_CHAR :: uint8_t where
  "SERIAL_MSG_END_CHAR = of_char CHR ''>''"

definition DEFAULT_CHANNEL_ON_TIME :: int16_t where
  "DEFAULT_CHANNEL_ON_TIME = 80"

definition DEFAULT_MIN_CHANNEL_OFF_TIME :: int16_t where
  "DEFAULT_MIN_CHANNEL_OFF_TIME = 40"

text \<open>The bytes of a text, as they travel on the serial line.\<close>

definition bytes :: "string \<Rightarrow> uint8_t list" where
  "bytes txt = map of_char txt"

text \<open>What \<open>Serial.println(F(""))\<close> writes: carriage return, line feed.\<close>

definition println_empty :: "uint8_t list" where
  "println_empty = [13, 10]"

subsection \<open>The globals of the program\<close>

text \<open>
  The arrays \<open>serialData[32]\<close> and \<open>setChannelLastTime[8]\<close> and the EEPROM are stores
  from index to value. The store itself has no bounds; every access to \<open>serialData\<close>
  checks its index against the declared size and yields \<open>None\<close> outside it, so that an
  access the C program must not make is a result of the model. \<open>serialIn\<close> is the
  receive queue behind \<open>Serial.available\<close> and \<open>Serial.read\<close>, \<open>serialOut\<close> everything
  written with \<open>Serial.write\<close> and \<open>Serial.println\<close>.
\<close>

record state =
  serialData :: "nat \<Rightarrow> uint8_t"
  deviceAddress :: uint8_t
  serialMessageActive :: uint8_t
  serialMessageLength :: uint8_t
  serialNextChar :: uint8_t
  serialMessageAvailable :: uint8_t
  serialLastTime :: ulong
  setChannelLastTime :: "nat \<Rightarrow> ulong"
  channelOnTime :: int16_t
  minChannelOffTime :: int16_t
  channelOnBitmask :: uint8_t
  eeprom :: "nat \<Rightarrow> uint8_t"
  serialIn :: "uint8_t list"
  serialOut :: "uint8_t list"

subsection \<open>The clock\<close>

text \<open>
  \<open>millis()\<close> is called at six places. A clock gives the value each call returns: the
  call in the \<open>k\<close>-th round of the receive loop, the call of the time-out test, and for
  channel \<open>i\<close> the calls in the test and in the assignment of the two channel loops.
  The clock that shows \<open>now\<close> at every call is \<open>\<lambda>_. now\<close>.
\<close>

datatype site =
    ListenByte nat
  | ListenEnd
  | RequestCheck nat
  | RequestSet nat
  | ExpireCheck nat
  | ExpireSet nat

type_synonym clock = "site \<Rightarrow> ulong"

subsection \<open>Receiving a message\<close>

definition listenSerialNewChar :: "uint8_t \<Rightarrow> state \<Rightarrow> state option" where
  "listenSerialNewChar leaveCharsAtEnd s =
     (if uint (serialMessageLength s) \<ge> SERIAL_MAX_DATA_LENGTH - uint leaveCharsAtEnd
      then Some s
      else
        let n = serialMessageLength s + 1;
            idx = uint n - 1
        in if 0 \<le> idx \<and> idx < SERIAL_MAX_DATA_LENGTH
           then Some (s\<lparr>serialMessageLength := n,
                        serialData := (serialData s)(nat idx := serialNextChar s)\<rparr>)
           else None)"

text \<open>
  The body of the \<open>while (Serial.available())\<close> loop, for the byte \<open>c\<close> that
  \<open>Serial.read\<close> takes from the receive queue, \<open>rx\<close> being the rest of the queue. The
  result says whether the function returns from inside the loop (a complete message).
\<close>

definition listenSerial_char :: "clock \<Rightarrow> nat \<Rightarrow> uint8_t \<Rightarrow> uint8_t list \<Rightarrow> state \<Rightarrow> (bool \<times> state) option" where
  "listenSerial_char millis k c rx s =
     (let s1 = s\<lparr>serialLastTime := millis (ListenByte k), serialNextChar := c, serialIn := rx\<rparr>
      in if serialMessageActive s1 \<noteq> 0
         then
           if serialNextChar s1 = SERIAL_MSG_END_CHAR
           then Option.bind (listenSerialNewChar 0 s1)
                  (\<lambda>s2. Some (True, s2\<lparr>serialMessageActive := 0, serialMessageAvailable := 1\<rparr>))
           else Option.bind (listenSerialNewChar 1 s1) (\<lambda>s2. Some (False, s2))
         else
           if serialNextChar s1 = SERIAL_MSG_BEGIN_CHAR
           then Option.bind (listenSerialNewChar 1 s1)
                  (\<lambda>s2. Some (False, s2\<lparr>serialMessageActive := 1\<rparr>))
           else Some (False, s1))"

text \<open>The loop itself, by recursion on the receive queue; \<open>k\<close> counts its rounds.\<close>

fun listenSerial_while :: "clock \<Rightarrow> nat \<Rightarrow> uint8_t list \<Rightarrow> state \<Rightarrow> (bool \<times> state) option" where
  "listenSerial_while millis k [] s = Some (False, s)"
| "listenSerial_while millis k (c # rx) s =
     (case listenSerial_char millis k c rx s of
        None \<Rightarrow> None
      | Some (returned, s1) \<Rightarrow>
          if returned then Some (True, s1) else listenSerial_while millis (Suc k) rx s1)"

definition listenSerial :: "clock \<Rightarrow> state \<Rightarrow> state option" where
  "listenSerial millis s =
     Option.bind (listenSerial_while millis 0 (serialIn s) s)
       (\<lambda>(returned, s1).
          if returned then Some s1
          else if millis ListenEnd - serialLastTime s1 > 1000
               then Some (s1\<lparr>serialMessageActive := 0, serialMessageLength := 0\<rparr>)
               else Some s1)"

subsection \<open>Decoding\<close>

definition charToNib :: "uint8_t \<Rightarrow> uint8_t" where
  "charToNib ch =
     (if ch \<ge> of_char CHR ''0'' \<and> ch \<le> of_char CHR ''9'' then ch - of_char CHR ''0''
      else if ch \<ge> of_char CHR ''A'' \<and> ch \<le> of_char CHR ''F'' then ch - of_char CHR ''A'' + 10
      else if ch \<ge> of_char CHR ''a'' \<and> ch \<le> of_char CHR ''f'' then ch - of_char CHR ''a'' + 10
      else 0)"

definition serialData_at :: "state \<Rightarrow> int \<Rightarrow> uint8_t option" where
  "serialData_at s idx =
     (if 0 \<le> idx \<and> idx < SERIAL_MAX_DATA_LENGTH then Some (serialData s (nat idx)) else None)"

definition readSerialByte :: "uint8_t \<Rightarrow> state \<Rightarrow> uint8_t option" where
  "readSerialByte index s =
     Option.bind (serialData_at s (uint index)) (\<lambda>c1.
     Option.bind (serialData_at s (uint index + 1)) (\<lambda>c2.
       let n1 = charToNib c1; n2 = charToNib c2
       in Some (n1 * 16 + n2)))"

subsection \<open>The timing configuration and the EEPROM\<close>

definition setChannelOnTime :: "uint8_t \<Rightarrow> state \<Rightarrow> state" where
  "setChannelOnTime onTimeCs s =
     s\<lparr>eeprom := (eeprom s)(0 := EEPROM_SET_FLAG, 1 := onTimeCs),
       channelOnTime := ucast onTimeCs * 10\<rparr>"

definition setMinChannelOffTime :: "uint8_t \<Rightarrow> state \<Rightarrow> state" where
  "setMinChannelOffTime minOffTimeCs s =
     s\<lparr>eeprom := (eeprom s)(2 := EEPROM_SET_FLAG, 3 := minOffTimeCs),
       minChannelOffTime := ucast minOffTimeCs * 10\<rparr>"

definition loadChannelOnTime :: "state \<Rightarrow> state" where
  "loadChannelOnTime s =
     (if eeprom s 0 = EEPROM_SET_FLAG
      then s\<lparr>channelOnTime := ucast (eeprom s 1) * 10\<rparr>
      else s\<lparr>channelOnTime := DEFAULT_CHANNEL_ON_TIME\<rparr>)"

definition loadMinChannelOffTime :: "state \<Rightarrow> state" where
  "loadMinChannelOffTime s =
     (if eeprom s 2 = EEPROM_SET_FLAG
      then s\<lparr>minChannelOffTime := ucast (eeprom s 3) * 10\<rparr>
      else s\<lparr>minChannelOffTime := DEFAULT_MIN_CHANNEL_OFF_TIME\<rparr>)"

subsection \<open>Processing a message\<close>

text \<open>The body of the \<open>for\<close> loop of \<open>processSerial\<close>, for channel \<open>i\<close>.\<close>

definition processSerial_channel :: "clock \<Rightarrow> uint8_t \<Rightarrow> nat \<Rightarrow> state \<Rightarrow> state" where
  "processSerial_channel millis cmd i s =
     (if bit cmd i \<and> \<not> bit (channelOnBitmask s) i
      then
        if millis (RequestCheck i) - setChannelLastTime s i \<ge> scast (minChannelOffTime s)
        then s\<lparr>channelOnBitmask := set_bit i (channelOnBitmask s),
               setChannelLastTime := (setChannelLastTime s)(i := millis (RequestSet i))\<rparr>
        else s
      else s)"

text \<open>
  \<open>Serial.write(serialData, serialMessageLength)\<close> reads the first
  \<open>serialMessageLength\<close> bytes of the buffer: more than the buffer holds is an access
  outside it.
\<close>

definition serialWrite :: "state \<Rightarrow> state option" where
  "serialWrite s =
     (if uint (serialMessageLength s) \<le> SERIAL_MAX_DATA_LENGTH
      then Some (s\<lparr>serialOut := serialOut s
                     @ map (serialData s) [0..<unat (serialMessageLength s)]\<rparr>)
      else None)"

text \<open>The two configuration commands, addresses \<open>0xFF\<close> and \<open>0xFE\<close>.\<close>

definition processSerial_config :: "uint8_t \<Rightarrow> uint8_t \<Rightarrow> state \<Rightarrow> state" where
  "processSerial_config addr cmd s =
     (let s1 = (if addr = 0xFF then setChannelOnTime cmd s else s)
      in if addr = 0xFE then setMinChannelOffTime cmd s1 else s1)"

text \<open>The \<open>for\<close> loop over the eight channels.\<close>

definition processSerial_for :: "clock \<Rightarrow> uint8_t \<Rightarrow> state \<Rightarrow> state" where
  "processSerial_for millis cmd s = fold (processSerial_channel millis cmd) [0..<8] s"

text \<open>What a message with address \<open>addr\<close> and command \<open>cmd\<close> does to the device.\<close>

definition processSerial_dispatch :: "clock \<Rightarrow> uint8_t \<Rightarrow> uint8_t \<Rightarrow> state \<Rightarrow> state" where
  "processSerial_dispatch millis addr cmd s =
     (let s2 = processSerial_config addr cmd s
      in if addr = deviceAddress s2 then processSerial_for millis cmd s2 else s2)"

definition processSerial :: "clock \<Rightarrow> state \<Rightarrow> state option" where
  "processSerial millis s =
     (if serialMessageAvailable s = 0 then Some s
      else
        Option.bind (readSerialByte 1 s) (\<lambda>addr.
        Option.bind (readSerialByte 3 s) (\<lambda>cmd.
          let s3 = processSerial_dispatch millis addr cmd s
          in Option.bind (serialWrite s3) (\<lambda>s4.
               let s5 = s4\<lparr>serialOut := serialOut s4 @ println_empty\<rparr>
               in Some (s5\<lparr>serialMessageAvailable := 0, serialMessageLength := 0\<rparr>)))))"

subsection \<open>Switching channels off\<close>

text \<open>The body of the \<open>for\<close> loop of \<open>checkResetChannels\<close>, for channel \<open>i\<close>.\<close>

definition checkResetChannels_channel :: "clock \<Rightarrow> nat \<Rightarrow> state \<Rightarrow> state" where
  "checkResetChannels_channel millis i s =
     (if bit (channelOnBitmask s) i
      then
        if millis (ExpireCheck i) - setChannelLastTime s i > scast (channelOnTime s)
        then s\<lparr>channelOnBitmask := unset_bit i (channelOnBitmask s),
               setChannelLastTime := (setChannelLastTime s)(i := millis (ExpireSet i))\<rparr>
        else s
      else s)"

definition checkResetChannels :: "clock \<Rightarrow> state \<Rightarrow> state" where
  "checkResetChannels millis s = fold (checkResetChannels_channel millis) [0..<8] s"

subsection \<open>Start and main loop\<close>

text \<open>
  The globals of a C program are zero when it starts; the EEPROM keeps its contents
  over a reset.
\<close>

definition power_on :: "(nat \<Rightarrow> uint8_t) \<Rightarrow> state" where
  "power_on rom =
     \<lparr>serialData = (\<lambda>_. 0), deviceAddress = 0, serialMessageActive = 0,
      serialMessageLength = 0, serialNextChar = 0, serialMessageAvailable = 0,
      serialLastTime = 0, setChannelLastTime = (\<lambda>_. 0), channelOnTime = 0,
      minChannelOffTime = 0, channelOnBitmask = 0, eeprom = rom,
      serialIn = [], serialOut = []\<rparr>"

text \<open>The function \<open>setup()\<close> of the source (\<open>setup\<close> is a keyword here).\<close>

definition setup_fn :: "state \<Rightarrow> state" where
  "setup_fn s =
     loadMinChannelOffTime (loadChannelOnTime
       (s\<lparr>deviceAddress := DEVICE_ADDRESS, serialMessageActive := 0,
          serialMessageLength := 0, serialMessageAvailable := 0\<rparr>))"

text \<open>
  One round of \<open>loop()\<close> with \<open>HARDWARE_TEST = 0\<close>. \<open>updateActiveChannels\<close> shifts
  \<open>channelOnBitmask\<close> out to the motor shield and changes none of the globals above.
\<close>

definition loop :: "clock \<Rightarrow> state \<Rightarrow> state option" where
  "loop millis s =
     Option.bind (listenSerial millis s) (\<lambda>s1.
     Option.bind (processSerial millis s1) (\<lambda>s2.
       Some (checkResetChannels millis s2)))"

text \<open>Rounds of the main loop one after the other, each with its clock.\<close>

fun loops :: "clock list \<Rightarrow> state \<Rightarrow> state option" where
  "loops [] s = Some s"
| "loops (millis # rest) s = Option.bind (loop millis s) (loops rest)"

text \<open>Bytes that arrive on the serial line between two rounds.\<close>

definition receive :: "uint8_t list \<Rightarrow> state \<Rightarrow> state" where
  "receive bs s = s\<lparr>serialIn := serialIn s @ bs\<rparr>"

subsection \<open>Hexadecimal digits\<close>

text \<open>
  The value of a hexadecimal digit as the description of the protocol gives it, and
  not as \<open>charToNib\<close> computes it: \<open>0\<close> to \<open>9\<close> are 0 to 9, \<open>A\<close> to \<open>F\<close> and \<open>a\<close> to
  \<open>f\<close> are 10 to 15.
\<close>

definition hex_digit_values :: "(char \<times> uint8_t) list" where
  "hex_digit_values =
     [(CHR ''0'', 0), (CHR ''1'', 1), (CHR ''2'', 2), (CHR ''3'', 3), (CHR ''4'', 4),
      (CHR ''5'', 5), (CHR ''6'', 6), (CHR ''7'', 7), (CHR ''8'', 8), (CHR ''9'', 9),
      (CHR ''A'', 10), (CHR ''B'', 11), (CHR ''C'', 12), (CHR ''D'', 13), (CHR ''E'', 14),
      (CHR ''F'', 15),
      (CHR ''a'', 10), (CHR ''b'', 11), (CHR ''c'', 12), (CHR ''d'', 13), (CHR ''e'', 14),
      (CHR ''f'', 15)]"

subsection \<open>Views of the state\<close>

text \<open>Channel \<open>i\<close>: whether it is on, and the time of its last change.\<close>

definition channel :: "nat \<Rightarrow> state \<Rightarrow> bool \<times> ulong" where
  "channel i s = (bit (channelOnBitmask s) i, setChannelLastTime s i)"

text \<open>The message in the buffer: its first \<open>serialMessageLength\<close> bytes.\<close>

definition message :: "state \<Rightarrow> uint8_t list" where
  "message s = map (serialData s) [0..<unat (serialMessageLength s)]"

text \<open>
  The receiver between two rounds of the main loop: no message waits to be processed,
  the buffer keeps the place for the end marker, and it is empty unless a message is
  being received.
\<close>

definition receiver_ready :: "state \<Rightarrow> bool" where
  "receiver_ready s \<longleftrightarrow>
     serialMessageAvailable s = 0 \<and> uint (serialMessageLength s) \<le> 31
     \<and> (serialMessageActive s = 0 \<longrightarrow> serialMessageLength s = 0)"

text \<open>
  Two states that agree on everything but the receiver: the device address, the
  channels, the timing configuration, the EEPROM and the bytes sent.
\<close>

definition same_device :: "state \<Rightarrow> state \<Rightarrow> bool" where
  "same_device s r \<longleftrightarrow>
     deviceAddress r = deviceAddress s \<and> setChannelLastTime r = setChannelLastTime s
     \<and> channelOnTime r = channelOnTime s \<and> minChannelOffTime r = minChannelOffTime s
     \<and> channelOnBitmask r = channelOnBitmask s \<and> eeprom r = eeprom s
     \<and> serialOut r = serialOut s"

section \<open>The channel loops\<close>

text \<open>
  Each round of a channel loop reads and writes the bit and the time stamp of its own
  channel only, so the loop does to channel \<open>j\<close> what its round \<open>j\<close> does to it.
\<close>

lemma bit_u8_less: "bit (w :: uint8_t) i \<Longrightarrow> i < 8"
  by (drule bit_imp_le_length) simp

lemma processSerial_channel_frame:
  "processSerial_channel millis cmd i s =
     s\<lparr>channelOnBitmask := channelOnBitmask (processSerial_channel millis cmd i s),
       setChannelLastTime := setChannelLastTime (processSerial_channel millis cmd i s)\<rparr>"
  by (simp add: processSerial_channel_def)

lemma processSerial_channel_other:
  "j \<noteq> i \<Longrightarrow> channel j (processSerial_channel millis cmd i s) = channel j s"
  by (simp add: processSerial_channel_def channel_def bit_set_bit_iff)

lemma processSerial_channel_minOff:
  "minChannelOffTime (processSerial_channel millis cmd i s) = minChannelOffTime s"
  by (simp add: processSerial_channel_def)

lemma processSerial_channel_depends:
  "channel i s = channel i r \<Longrightarrow> minChannelOffTime s = minChannelOffTime r \<Longrightarrow>
   channel i (processSerial_channel millis cmd i s) = channel i (processSerial_channel millis cmd i r)"
  by (auto simp add: processSerial_channel_def channel_def bit_set_bit_iff)

lemma fold_request_channel:
  "distinct js \<Longrightarrow>
   channel j (fold (processSerial_channel millis cmd) js s) =
     (if j \<in> set js then channel j (processSerial_channel millis cmd j s) else channel j s)"
proof (induction js arbitrary: s)
  case Nil
  then show ?case by simp
next
  case (Cons i js)
  show ?case
  proof (cases "j = i")
    case True
    with Cons show ?thesis by simp
  next
    case False
    with Cons show ?thesis
      by (auto simp: processSerial_channel_other processSerial_channel_minOff
               intro: processSerial_channel_depends)
  qed
qed

lemma fold_request_frame:
  "fold (processSerial_channel millis cmd) js s =
     s\<lparr>channelOnBitmask := channelOnBitmask (fold (processSerial_channel millis cmd) js s),
       setChannelLastTime := setChannelLastTime (fold (processSerial_channel millis cmd) js s)\<rparr>"
proof (induction js arbitrary: s)
  case Nil
  then show ?case by simp
next
  case (Cons i js)
  show ?case
    apply (simp only: fold_simps)
    apply (subst Cons.IH)
    apply (subst (3) processSerial_channel_frame)
    apply simp
    done
qed

lemma processSerial_for_channel:
  "channel j (processSerial_for millis cmd s) =
     (if j < 8 then channel j (processSerial_channel millis cmd j s) else channel j s)"
  by (simp add: processSerial_for_def fold_request_channel)

lemma checkResetChannels_channel_frame:
  "checkResetChannels_channel millis i s =
     s\<lparr>channelOnBitmask := channelOnBitmask (checkResetChannels_channel millis i s),
       setChannelLastTime := setChannelLastTime (checkResetChannels_channel millis i s)\<rparr>"
  by (simp add: checkResetChannels_channel_def)

lemma checkResetChannels_channel_other:
  "j \<noteq> i \<Longrightarrow> channel j (checkResetChannels_channel millis i s) = channel j s"
  by (auto simp add: checkResetChannels_channel_def channel_def bit_unset_bit_iff)

lemma checkResetChannels_channel_onTime:
  "channelOnTime (checkResetChannels_channel millis i s) = channelOnTime s"
  by (simp add: checkResetChannels_channel_def)

lemma checkResetChannels_channel_depends:
  "channel i s = channel i r \<Longrightarrow> channelOnTime s = channelOnTime r \<Longrightarrow>
   channel i (checkResetChannels_channel millis i s) = channel i (checkResetChannels_channel millis i r)"
  by (auto simp add: checkResetChannels_channel_def channel_def bit_unset_bit_iff)

lemma fold_reset_channel:
  "distinct js \<Longrightarrow>
   channel j (fold (checkResetChannels_channel millis) js s) =
     (if j \<in> set js then channel j (checkResetChannels_channel millis j s) else channel j s)"
proof (induction js arbitrary: s)
  case Nil
  then show ?case by simp
next
  case (Cons i js)
  show ?case
  proof (cases "j = i")
    case True
    with Cons show ?thesis by simp
  next
    case False
    with Cons show ?thesis
      by (auto simp: checkResetChannels_channel_other checkResetChannels_channel_onTime
               intro: checkResetChannels_channel_depends)
  qed
qed

lemma fold_reset_frame:
  "fold (checkResetChannels_channel millis) js s =
     s\<lparr>channelOnBitmask := channelOnBitmask (fold (checkResetChannels_channel millis) js s),
       setChannelLastTime := setChannelLastTime (fold (checkResetChannels_channel millis) js s)\<rparr>"
proof (induction js arbitrary: s)
  case Nil
  then show ?case by simp
next
  case (Cons i js)
  show ?case
    apply (simp only: fold_simps)
    apply (subst Cons.IH)
    apply (subst (3) checkResetChannels_channel_frame)
    apply simp
    done
qed

lemma checkResetChannels_channel_eq:
  "channel j (checkResetChannels millis s) =
     (if bit (channelOnBitmask s) j
         \<and> scast (channelOnTime s) < millis (ExpireCheck j) - setChannelLastTime s j
      then (False, millis (ExpireSet j)) else channel j s)"
proof (cases "j < 8")
  case True
  then show ?thesis
    by (simp add: checkResetChannels_def fold_reset_channel)
       (simp add: checkResetChannels_channel_def channel_def bit_unset_bit_iff)
next
  case False
  then have "\<not> bit (channelOnBitmask s) j"
    using bit_u8_less by blast
  with False show ?thesis
    by (simp add: checkResetChannels_def fold_reset_channel)
qed

lemma checkResetChannels_frame:
  "checkResetChannels millis s =
     s\<lparr>channelOnBitmask := channelOnBitmask (checkResetChannels millis s),
       setChannelLastTime := setChannelLastTime (checkResetChannels millis s)\<rparr>"
  unfolding checkResetChannels_def by (rule fold_reset_frame)

lemma processSerial_for_channel_eq:
  "channel j (processSerial_for millis cmd s) =
     (if bit cmd j \<and> \<not> bit (channelOnBitmask s) j
         \<and> scast (minChannelOffTime s) \<le> millis (RequestCheck j) - setChannelLastTime s j
      then (True, millis (RequestSet j)) else channel j s)"
proof (cases "j < 8")
  case True
  then show ?thesis
    by (simp add: processSerial_for_channel)
       (simp add: processSerial_channel_def channel_def bit_set_bit_iff)
next
  case False
  then have "\<not> bit cmd j"
    using bit_u8_less by blast
  with False show ?thesis
    by (simp add: processSerial_for_channel)
qed

lemma processSerial_for_frame:
  "processSerial_for millis cmd s =
     s\<lparr>channelOnBitmask := channelOnBitmask (processSerial_for millis cmd s),
       setChannelLastTime := setChannelLastTime (processSerial_for millis cmd s)\<rparr>"
  unfolding processSerial_for_def by (rule fold_request_frame)

lemma scast_int16_eq_0: "(scast (m :: int16_t) :: ulong) = 0 \<longleftrightarrow> m = 0"
proof
  assume h: "(scast m :: ulong) = 0"
  have "m = scast (scast m :: ulong)"
    by (simp add: scast_up_scast_id is_up)
  with h show "m = 0" by simp
qed simp

section \<open>Requests to switch a channel on\<close>

text \<open>
  C2. A message for this device whose command byte has bit \<open>i\<close> set asks for channel
  \<open>i\<close> to be switched on. With the clock at \<open>now\<close>, the channel loop of
  \<open>processSerial\<close> switches channel \<open>i\<close> on and stamps it with \<open>now\<close> exactly when the
  channel is off and the unsigned difference \<open>now - setChannelLastTime[i]\<close> is at least
  \<open>minChannelOffTime\<close>; otherwise the channel keeps its state and its time stamp.
  A request at the last change plus \<open>minChannelOffTime\<close> is granted, a request one
  millisecond earlier is not (for a minimum off time other than zero), and a request
  for a channel that is on changes nothing of it.
\<close>

theorem on_request_debounce:
  "i < 8 \<Longrightarrow> bit cmd i \<Longrightarrow>
   channel i (processSerial_for (\<lambda>_. now) cmd s) =
     (if \<not> bit (channelOnBitmask s) i
         \<and> scast (minChannelOffTime s) \<le> now - setChannelLastTime s i
      then (True, now) else channel i s)
   \<and> (\<not> bit (channelOnBitmask s) i
        \<and> now = setChannelLastTime s i + scast (minChannelOffTime s)
      \<longrightarrow> channel i (processSerial_for (\<lambda>_. now) cmd s) = (True, now))
   \<and> (minChannelOffTime s \<noteq> 0
        \<and> now = setChannelLastTime s i + scast (minChannelOffTime s) - 1
      \<longrightarrow> channel i (processSerial_for (\<lambda>_. now) cmd s) = channel i s)
   \<and> (bit (channelOnBitmask s) i
      \<longrightarrow> channel i (processSerial_for (\<lambda>_. now) cmd s) = channel i s)"
  by (simp add: processSerial_for_channel_eq less_eq_dec_self_iff_eq scast_int16_eq_0)

theorem on_request_debounce_witness:
  "(3::nat) < 8 \<and> bit (8 :: uint8_t) 3
   \<and> channel 3 (processSerial_for (\<lambda>_. 1040) 8
         (setup_fn (power_on (\<lambda>_. 0))\<lparr>setChannelLastTime := (\<lambda>_. 1000)\<rparr>)) = (True, 1040)
   \<and> channel 3 (processSerial_for (\<lambda>_. 1039) 8
         (setup_fn (power_on (\<lambda>_. 0))\<lparr>setChannelLastTime := (\<lambda>_. 1000)\<rparr>)) = (False, 1000)
   \<and> channel 3 (processSerial_for (\<lambda>_. 5000) 8
         (setup_fn (power_on (\<lambda>_. 0))\<lparr>channelOnBitmask := 8, setChannelLastTime := (\<lambda>_. 1000)\<rparr>))
       = (True, 1000)"
  using on_request_debounce [of 3 8 1040 "setup_fn (power_on (\<lambda>_. 0))\<lparr>setChannelLastTime := (\<lambda>_. 1000)\<rparr>"]
        on_request_debounce [of 3 8 1039 "setup_fn (power_on (\<lambda>_. 0))\<lparr>setChannelLastTime := (\<lambda>_. 1000)\<rparr>"]
        on_request_debounce [of 3 8 5000 "setup_fn (power_on (\<lambda>_. 0))\<lparr>channelOnBitmask := 8, setChannelLastTime := (\<lambda>_. 1000)\<rparr>"]
  by (simp add: setup_fn_def power_on_def loadChannelOnTime_def loadMinChannelOffTime_def
        EEPROM_SET_FLAG_def DEFAULT_MIN_CHANNEL_OFF_TIME_def channel_def)

section \<open>Switching off after the on time\<close>

text \<open>
  A round of the main loop with nothing to receive and no message to process does
  the time-out test of \<open>listenSerial\<close> and then \<open>checkResetChannels\<close>.
\<close>

lemma checkResetChannels_fields:
  "serialIn (checkResetChannels millis s) = serialIn s"
  "serialMessageAvailable (checkResetChannels millis s) = serialMessageAvailable s"
  "channelOnTime (checkResetChannels millis s) = channelOnTime s"
  by (subst checkResetChannels_frame, simp)+

lemma listenSerial_idle:
  "serialIn s = [] \<Longrightarrow>
   listenSerial millis s =
     Some (if 1000 < millis ListenEnd - serialLastTime s
           then s\<lparr>serialMessageActive := 0, serialMessageLength := 0\<rparr> else s)"
  by (simp add: listenSerial_def)

lemma loop_idle:
  assumes "serialIn s = []" and "serialMessageAvailable s = 0"
  shows "\<exists>s'. loop millis s = Some s' \<and> serialIn s' = [] \<and> serialMessageAvailable s' = 0
           \<and> channelOnTime s' = channelOnTime s
           \<and> (\<forall>j. channel j s' =
                 (if bit (channelOnBitmask s) j
                     \<and> scast (channelOnTime s) < millis (ExpireCheck j) - setChannelLastTime s j
                  then (False, millis (ExpireSet j)) else channel j s))"
proof -
  define s1 where "s1 = (if 1000 < millis ListenEnd - serialLastTime s
           then s\<lparr>serialMessageActive := 0, serialMessageLength := 0\<rparr> else s)"
  have s1: "serialIn s1 = []" "serialMessageAvailable s1 = 0"
    "channelOnTime s1 = channelOnTime s" "channelOnBitmask s1 = channelOnBitmask s"
    "setChannelLastTime s1 = setChannelLastTime s" "\<And>j. channel j s1 = channel j s"
    using assms by (simp_all add: s1_def channel_def)
  have "loop millis s = Some (checkResetChannels millis s1)"
    using assms s1(2) by (simp add: loop_def listenSerial_idle processSerial_def s1_def)
  then show ?thesis
    by (simp add: checkResetChannels_fields checkResetChannels_channel_eq s1)
qed

lemma loops_idle_stays_off:
  "serialIn s = [] \<Longrightarrow> serialMessageAvailable s = 0 \<Longrightarrow> \<not> bit (channelOnBitmask s) i \<Longrightarrow>
   \<exists>s'. loops (map (\<lambda>t _. t) ts) s = Some s' \<and> \<not> bit (channelOnBitmask s') i"
proof (induction ts arbitrary: s)
  case Nil
  then show ?case by simp
next
  case (Cons t ts)
  from loop_idle [OF Cons.prems(1,2), of "\<lambda>_. t"]
  obtain s1 where s1: "loop (\<lambda>_. t) s = Some s1" "serialIn s1 = []"
      "serialMessageAvailable s1 = 0" "channel i s1 = channel i s"
    using Cons.prems(3) by auto
  from s1(4) Cons.prems(3) have "\<not> bit (channelOnBitmask s1) i"
    by (simp add: channel_def)
  from Cons.IH [OF s1(2,3) this] s1(1) show ?case by simp
qed

lemma loops_idle_expires:
  "serialIn s = [] \<Longrightarrow> serialMessageAvailable s = 0 \<Longrightarrow>
   t \<in> set ts \<Longrightarrow> scast (channelOnTime s) < t - setChannelLastTime s i \<Longrightarrow>
   \<exists>s'. loops (map (\<lambda>t _. t) ts) s = Some s' \<and> \<not> bit (channelOnBitmask s') i"
proof (induction ts arbitrary: s)
  case Nil
  then show ?case by simp
next
  case (Cons u ts)
  from loop_idle [OF Cons.prems(1,2), of "\<lambda>_. u"]
  obtain s1 where s1: "loop (\<lambda>_. u) s = Some s1" "serialIn s1 = []"
      "serialMessageAvailable s1 = 0" "channelOnTime s1 = channelOnTime s"
      "channel i s1 =
         (if bit (channelOnBitmask s) i \<and> scast (channelOnTime s) < u - setChannelLastTime s i
          then (False, u) else channel i s)"
    by auto
  show ?case
  proof (cases "bit (channelOnBitmask s1) i")
    case False
    from loops_idle_stays_off [OF s1(2,3) False] s1(1) show ?thesis by simp
  next
    case True
    with s1(5) have same: "channel i s1 = channel i s"
      by (auto simp: channel_def split: if_splits)
    have "t \<noteq> u"
    proof
      assume "t = u"
      with Cons.prems(4) s1(5) True same show False
        by (auto simp: channel_def split: if_splits)
    qed
    with Cons.prems(3) have "t \<in> set ts" by simp
    moreover from same Cons.prems(4) s1(4)
    have "scast (channelOnTime s1) < t - setChannelLastTime s1 i"
      by (simp add: channel_def)
    ultimately show ?thesis
      using Cons.IH [OF s1(2,3)] s1(1) by simp
  qed
qed



text \<open>
  C3. With the clock at \<open>now\<close>, one call of \<open>checkResetChannels\<close> switches off exactly
  the channels that are on and for which the unsigned difference
  \<open>now - setChannelLastTime[i]\<close> is greater than \<open>channelOnTime\<close>, and stamps them with
  \<open>now\<close>; every other channel keeps its state and its stamp, and no other global
  changes. So a channel that is on since \<open>T0\<close> is off after the first round of the main
  loop whose clock is later than \<open>T0 + channelOnTime\<close>, with nothing received in the
  rounds \<open>ts\<close>.
\<close>

theorem expiry_poll:
  "channel i (checkResetChannels (\<lambda>_. now) s) =
     (if bit (channelOnBitmask s) i \<and> scast (channelOnTime s) < now - setChannelLastTime s i
      then (False, now) else channel i s)
   \<and> checkResetChannels (\<lambda>_. now) s =
       s\<lparr>channelOnBitmask := channelOnBitmask (checkResetChannels (\<lambda>_. now) s),
         setChannelLastTime := setChannelLastTime (checkResetChannels (\<lambda>_. now) s)\<rparr>
   \<and> (serialIn s = [] \<and> serialMessageAvailable s = 0
        \<and> bit (channelOnBitmask s) i \<and> setChannelLastTime s i = T0
        \<and> t \<in> set ts \<and> scast (channelOnTime s) < t - T0
      \<longrightarrow> (\<exists>s'. loops (map (\<lambda>t _. t) ts) s = Some s' \<and> \<not> bit (channelOnBitmask s') i))"
proof (intro conjI impI)
  show "channel i (checkResetChannels (\<lambda>_. now) s) =
     (if bit (channelOnBitmask s) i \<and> scast (channelOnTime s) < now - setChannelLastTime s i
      then (False, now) else channel i s)"
    by (simp add: checkResetChannels_channel_eq)
  show "checkResetChannels (\<lambda>_. now) s =
       s\<lparr>channelOnBitmask := channelOnBitmask (checkResetChannels (\<lambda>_. now) s),
         setChannelLastTime := setChannelLastTime (checkResetChannels (\<lambda>_. now) s)\<rparr>"
    by (rule checkResetChannels_frame)
next
  assume a: "serialIn s = [] \<and> serialMessageAvailable s = 0
        \<and> bit (channelOnBitmask s) i \<and> setChannelLastTime s i = T0
        \<and> t \<in> set ts \<and> scast (channelOnTime s) < t - T0"
  then show "\<exists>s'. loops (map (\<lambda>t _. t) ts) s = Some s' \<and> \<not> bit (channelOnBitmask s') i"
    using loops_idle_expires [of s t ts i] by simp
qed

theorem expiry_poll_witness:
  "channel 2 (checkResetChannels (\<lambda>_. 1081)
      (setup_fn (power_on (\<lambda>_. 0))\<lparr>channelOnBitmask := 4, setChannelLastTime := (\<lambda>_. 1000)\<rparr>))
     = (False, 1081)
   \<and> channel 2 (checkResetChannels (\<lambda>_. 1080)
      (setup_fn (power_on (\<lambda>_. 0))\<lparr>channelOnBitmask := 4, setChannelLastTime := (\<lambda>_. 1000)\<rparr>))
     = (True, 1000)
   \<and> (\<exists>s'. loops (map (\<lambda>t _. t) [1050, 1080, 1081])
          (setup_fn (power_on (\<lambda>_. 0))\<lparr>channelOnBitmask := 4, setChannelLastTime := (\<lambda>_. 1000)\<rparr>)
        = Some s' \<and> \<not> bit (channelOnBitmask s') 2)"
  using expiry_poll [of 2 1081 "setup_fn (power_on (\<lambda>_. 0))\<lparr>channelOnBitmask := 4, setChannelLastTime := (\<lambda>_. 1000)\<rparr>" 1000 1081 "[1050, 1080, 1081]"]
        expiry_poll [of 2 1080 "setup_fn (power_on (\<lambda>_. 0))\<lparr>channelOnBitmask := 4, setChannelLastTime := (\<lambda>_. 1000)\<rparr>" 1000 1081 "[1050, 1080, 1081]"]
  by (simp add: setup_fn_def power_on_def loadChannelOnTime_def loadMinChannelOffTime_def
        EEPROM_SET_FLAG_def DEFAULT_CHANNEL_ON_TIME_def channel_def)

section \<open>Decoding and dispatch\<close>

text \<open>
  The two reads of \<open>readSerialByte\<close> in \<open>processSerial\<close> are at the fixed places 1 to 4
  of the buffer, inside its 32 bytes.
\<close>

lemma readSerialByte_1:
  "readSerialByte 1 s = Some (charToNib (serialData s 1) * 16 + charToNib (serialData s 2))"
  by (simp add: readSerialByte_def serialData_at_def SERIAL_MAX_DATA_LENGTH_def Let_def)

lemma readSerialByte_3:
  "readSerialByte 3 s = Some (charToNib (serialData s 3) * 16 + charToNib (serialData s 4))"
  by (simp add: readSerialByte_def serialData_at_def SERIAL_MAX_DATA_LENGTH_def Let_def)

lemma processSerial_config_fields:
  "serialData (processSerial_config addr cmd s) = serialData s"
  "deviceAddress (processSerial_config addr cmd s) = deviceAddress s"
  "serialMessageLength (processSerial_config addr cmd s) = serialMessageLength s"
  "serialOut (processSerial_config addr cmd s) = serialOut s"
  "serialIn (processSerial_config addr cmd s) = serialIn s"
  "channelOnBitmask (processSerial_config addr cmd s) = channelOnBitmask s"
  "setChannelLastTime (processSerial_config addr cmd s) = setChannelLastTime s"
  "channel i (processSerial_config addr cmd s) = channel i s"
  by (simp_all add: processSerial_config_def setChannelOnTime_def setMinChannelOffTime_def
        Let_def channel_def)

lemma processSerial_for_fields:
  "serialData (processSerial_for millis cmd s) = serialData s"
  "deviceAddress (processSerial_for millis cmd s) = deviceAddress s"
  "serialMessageLength (processSerial_for millis cmd s) = serialMessageLength s"
  "serialOut (processSerial_for millis cmd s) = serialOut s"
  "serialIn (processSerial_for millis cmd s) = serialIn s"
  "eeprom (processSerial_for millis cmd s) = eeprom s"
  "channelOnTime (processSerial_for millis cmd s) = channelOnTime s"
  "minChannelOffTime (processSerial_for millis cmd s) = minChannelOffTime s"
  by (subst processSerial_for_frame, simp)+

lemma processSerial_dispatch_eq:
  "processSerial_dispatch millis addr cmd s =
     (if addr = deviceAddress s
      then processSerial_for millis cmd (processSerial_config addr cmd s)
      else processSerial_config addr cmd s)"
  by (simp add: processSerial_dispatch_def Let_def processSerial_config_fields)

lemma processSerial_dispatch_fields:
  "serialData (processSerial_dispatch millis addr cmd s) = serialData s"
  "serialMessageLength (processSerial_dispatch millis addr cmd s) = serialMessageLength s"
  "serialOut (processSerial_dispatch millis addr cmd s) = serialOut s"
  "serialIn (processSerial_dispatch millis addr cmd s) = serialIn s"
  "deviceAddress (processSerial_dispatch millis addr cmd s) = deviceAddress s"
  by (simp_all add: processSerial_dispatch_eq processSerial_for_fields processSerial_config_fields)

lemma processSerial_available:
  assumes "serialMessageAvailable s \<noteq> 0"
    and "uint (serialMessageLength s) \<le> SERIAL_MAX_DATA_LENGTH"
    and "readSerialByte 1 s = Some addr" and "readSerialByte 3 s = Some cmd"
  shows "processSerial millis s =
     Some ((processSerial_dispatch millis addr cmd s)
            \<lparr>serialOut := serialOut s @ message s @ println_empty,
             serialMessageAvailable := 0, serialMessageLength := 0\<rparr>)"
  using assms
  by (simp add: processSerial_def Let_def serialWrite_def processSerial_dispatch_eq message_def
        processSerial_for_fields processSerial_config_fields)


lemma charToNib_hex_digit:
  "(c, v) \<in> set hex_digit_values \<Longrightarrow> charToNib (of_char c) = v"
  unfolding hex_digit_values_def set_simps insert_iff empty_iff prod.inject
  by (elim disjE conjE FalseE; simp add: charToNib_def)

lemma processSerial_dispatch_channel:
  "channel i (processSerial_dispatch millis addr cmd s) =
     (if addr = deviceAddress s \<and> bit cmd i
      then channel i (processSerial_channel millis cmd i (processSerial_config addr cmd s))
      else channel i s)"
proof (cases "i < 8")
  case True
  then show ?thesis
    by (simp add: processSerial_dispatch_eq processSerial_for_channel processSerial_config_fields
          processSerial_channel_def)
next
  case False
  then have "\<not> bit cmd i" using bit_u8_less by blast
  with False show ?thesis
    by (simp add: processSerial_dispatch_eq processSerial_for_channel processSerial_config_fields)
qed

lemma channel_after_relay:
  "channel i (s\<lparr>serialOut := out, serialMessageAvailable := a, serialMessageLength := n\<rparr>)
     = channel i s"
  by (simp add: channel_def)

section \<open>The receiver\<close>

text \<open>
  The length of the message only grows while it is below 32, so a step by one does
  not wrap around.
\<close>

lemma uint_length_succ:
  "uint (n :: uint8_t) < 32 \<Longrightarrow> uint (n + 1) = uint n + 1"
  by (simp add: uint_word_ariths take_bit_int_eq_self)

lemma unat_length_succ:
  assumes "uint (n :: uint8_t) < 32"
  shows "unat (n + 1) = Suc (unat n)"
proof -
  have "int (unat (n + 1)) = int (unat n) + 1"
    using uint_length_succ [OF assms] by (simp only: uint_nat)
  then show ?thesis by linarith
qed


text \<open>Storing the byte read, as \<open>listenSerialNewChar\<close> does when there is room.\<close>

lemma listenSerialNewChar_eq:
  assumes "uint leave \<le> 1"
  shows "listenSerialNewChar leave s =
     Some (if uint (serialMessageLength s) < 32 - uint leave
           then s\<lparr>serialMessageLength := serialMessageLength s + 1,
                  serialData := (serialData s)(unat (serialMessageLength s) := serialNextChar s)\<rparr>
           else s)"
proof (cases "uint (serialMessageLength s) < 32 - uint leave")
  case False
  then show ?thesis
    by (simp add: listenSerialNewChar_def SERIAL_MAX_DATA_LENGTH_def)
next
  case True
  have "0 \<le> uint leave" by simp
  with True have lt: "uint (serialMessageLength s) < 32" by linarith
  have idx: "uint (serialMessageLength s + 1) - 1 = uint (serialMessageLength s)"
    using uint_length_succ [OF lt] by simp
  have nat_idx: "nat (uint (serialMessageLength s)) = unat (serialMessageLength s)"
    by simp
  from True have guard: "\<not> SERIAL_MAX_DATA_LENGTH - uint leave \<le> uint (serialMessageLength s)"
    unfolding SERIAL_MAX_DATA_LENGTH_def by linarith
  from lt have inb: "uint (serialMessageLength s) < SERIAL_MAX_DATA_LENGTH"
    unfolding SERIAL_MAX_DATA_LENGTH_def .
  show ?thesis
    unfolding listenSerialNewChar_def Let_def idx nat_idx
    using guard inb True by simp
qed

lemma message_store:
  assumes "uint (serialMessageLength s) < 32"
  shows "message (s\<lparr>serialMessageLength := serialMessageLength s + 1,
             serialData := (serialData s)(unat (serialMessageLength s) := c)\<rparr>)
     = message s @ [c]"
  by (simp add: message_def unat_length_succ [OF assms])

lemma message_other_fields:
  "message (s\<lparr>serialLastTime := t, serialNextChar := c, serialIn := rx\<rparr>) = message s"
  "message (s\<lparr>serialMessageActive := a\<rparr>) = message s"
  "message (s\<lparr>serialMessageActive := a, serialMessageAvailable := b\<rparr>) = message s"
  by (simp_all add: message_def)

lemma listenSerial_char_accumulating:
  assumes "serialMessageActive s \<noteq> 0" and "c \<noteq> SERIAL_MSG_END_CHAR"
  shows "listenSerial_char millis k c rx s =
     Some (False,
       if uint (serialMessageLength s) < 31
       then s\<lparr>serialLastTime := millis (ListenByte k), serialNextChar := c, serialIn := rx,
              serialMessageLength := serialMessageLength s + 1,
              serialData := (serialData s)(unat (serialMessageLength s) := c)\<rparr>
       else s\<lparr>serialLastTime := millis (ListenByte k), serialNextChar := c, serialIn := rx\<rparr>)"
  using assms by (simp add: listenSerial_char_def listenSerialNewChar_eq)

lemma listenSerial_char_end:
  assumes "serialMessageActive s \<noteq> 0"
  shows "listenSerial_char millis k SERIAL_MSG_END_CHAR rx s =
     Some (True,
       if uint (serialMessageLength s) < 32
       then s\<lparr>serialLastTime := millis (ListenByte k), serialNextChar := SERIAL_MSG_END_CHAR,
              serialIn := rx,
              serialMessageLength := serialMessageLength s + 1,
              serialData := (serialData s)(unat (serialMessageLength s) := SERIAL_MSG_END_CHAR),
              serialMessageActive := 0, serialMessageAvailable := 1\<rparr>
       else s\<lparr>serialLastTime := millis (ListenByte k), serialNextChar := SERIAL_MSG_END_CHAR,
              serialIn := rx, serialMessageActive := 0, serialMessageAvailable := 1\<rparr>)"
  using assms by (simp add: listenSerial_char_def listenSerialNewChar_eq)

lemma listenSerial_char_begin:
  assumes "serialMessageActive s = 0"
  shows "listenSerial_char millis k SERIAL_MSG_BEGIN_CHAR rx s =
     Some (False,
       if uint (serialMessageLength s) < 31
       then s\<lparr>serialLastTime := millis (ListenByte k), serialNextChar := SERIAL_MSG_BEGIN_CHAR,
              serialIn := rx,
              serialMessageLength := serialMessageLength s + 1,
              serialData := (serialData s)(unat (serialMessageLength s) := SERIAL_MSG_BEGIN_CHAR),
              serialMessageActive := 1\<rparr>
       else s\<lparr>serialLastTime := millis (ListenByte k), serialNextChar := SERIAL_MSG_BEGIN_CHAR,
              serialIn := rx, serialMessageActive := 1\<rparr>)"
  using assms by (simp add: listenSerial_char_def listenSerialNewChar_eq)

lemma listenSerial_char_ignored:
  assumes "serialMessageActive s = 0" and "c \<noteq> SERIAL_MSG_BEGIN_CHAR"
  shows "listenSerial_char millis k c rx s =
     Some (False, s\<lparr>serialLastTime := millis (ListenByte k), serialNextChar := c, serialIn := rx\<rparr>)"
  using assms by (simp add: listenSerial_char_def)

lemma length_message: "length (message s) = unat (serialMessageLength s)"
  by (simp add: message_def)

lemma uint_le_unat_le: "uint (n :: uint8_t) \<le> 31 \<longleftrightarrow> unat n \<le> 31"
  unfolding uint_nat by linarith

lemma uint_less_unat_less: "uint (n :: uint8_t) < 31 \<longleftrightarrow> unat n < 31"
  unfolding uint_nat by linarith

lemma same_device_refl: "same_device s s"
  by (simp add: same_device_def)

lemma same_device_trans: "same_device s r \<Longrightarrow> same_device r q \<Longrightarrow> same_device s q"
  by (simp add: same_device_def)

lemma take_take_append: "take n (take n xs @ ys) = take n (xs @ ys)"
  by (cases "n \<le> length xs") simp_all

text \<open>One byte other than the end marker, while a message is active.\<close>

lemma accumulate_one:
  assumes "serialMessageActive s \<noteq> 0" and "c \<noteq> SERIAL_MSG_END_CHAR"
    and "uint (serialMessageLength s) \<le> 31"
  shows "\<exists>s'. listenSerial_char millis k c rx s = Some (False, s')
      \<and> same_device s s'
      \<and> serialMessageActive s' = serialMessageActive s
      \<and> serialMessageAvailable s' = serialMessageAvailable s
      \<and> message s' = take 31 (message s @ [c])
      \<and> uint (serialMessageLength s') \<le> 31
      \<and> (\<forall>i. unat (serialMessageLength s') \<le> i \<longrightarrow> serialData s' i = serialData s i)
      \<and> serialIn s' = rx
      \<and> serialLastTime s' = millis (ListenByte k)"
proof (cases "uint (serialMessageLength s) < 31")
  case True
  then have lt: "uint (serialMessageLength s) < 32" by simp
  from True have n: "unat (serialMessageLength s) < 31"
    by (simp add: uint_less_unat_less)
  show ?thesis
    using True n
    by (simp add: listenSerial_char_accumulating [OF assms(1,2)] same_device_def
          message_def uint_length_succ [OF lt] unat_length_succ [OF lt])
next
  case False
  with assms(3) have "unat (serialMessageLength s) = 31"
    unfolding uint_nat by linarith
  with False assms(3) show ?thesis
    by (simp add: listenSerial_char_accumulating [OF assms(1,2)] same_device_def
          message_def)
qed


text \<open>Bytes without an end marker, while a message is active.\<close>

lemma accumulate_many:
  assumes "serialMessageActive s \<noteq> 0" and "SERIAL_MSG_END_CHAR \<notin> set p"
    and "uint (serialMessageLength s) \<le> 31"
  shows "\<exists>s1. listenSerial_while millis k (p @ rx) s
               = listenSerial_while millis (k + length p) rx s1
      \<and> same_device s s1
      \<and> serialMessageActive s1 = serialMessageActive s
      \<and> serialMessageAvailable s1 = serialMessageAvailable s
      \<and> message s1 = take 31 (message s @ p)
      \<and> uint (serialMessageLength s1) \<le> 31
      \<and> (\<forall>i. unat (serialMessageLength s1) \<le> i \<longrightarrow> serialData s1 i = serialData s i)
      \<and> serialIn s1 = (if p = [] then serialIn s else rx)
      \<and> serialLastTime s1
          = (if p = [] then serialLastTime s else millis (ListenByte (k + length p - 1)))"
  using assms
proof (induction p arbitrary: s k)
  case Nil
  then have "unat (serialMessageLength s) \<le> 31"
    by (simp add: uint_le_unat_le)
  then have "take 31 (message s) = message s"
    by (simp add: length_message)
  with Nil show ?case
    by (intro exI [of _ s]) (simp add: same_device_refl)
next
  case (Cons c p)
  from Cons.prems have c: "c \<noteq> SERIAL_MSG_END_CHAR" and p: "SERIAL_MSG_END_CHAR \<notin> set p"
    by auto
  from accumulate_one [OF Cons.prems(1) c Cons.prems(3), of millis k "p @ rx"]
  obtain s' where s': "listenSerial_char millis k c (p @ rx) s = Some (False, s')"
      "same_device s s'" "serialMessageActive s' = serialMessageActive s"
      "serialMessageAvailable s' = serialMessageAvailable s"
      "message s' = take 31 (message s @ [c])"
      "uint (serialMessageLength s') \<le> 31"
      "\<forall>i. unat (serialMessageLength s') \<le> i \<longrightarrow> serialData s' i = serialData s i"
      "serialIn s' = p @ rx" "serialLastTime s' = millis (ListenByte k)"
    by blast
  from s'(3) Cons.prems(1) have act: "serialMessageActive s' \<noteq> 0" by simp
  from Cons.IH [OF act p s'(6), of "Suc k"]
  obtain s1 where s1: "listenSerial_while millis (Suc k) (p @ rx) s'
               = listenSerial_while millis (Suc k + length p) rx s1"
      "same_device s' s1" "serialMessageActive s1 = serialMessageActive s'"
      "serialMessageAvailable s1 = serialMessageAvailable s'"
      "message s1 = take 31 (message s' @ p)"
      "uint (serialMessageLength s1) \<le> 31"
      "\<forall>i. unat (serialMessageLength s1) \<le> i \<longrightarrow> serialData s1 i = serialData s' i"
      "serialIn s1 = (if p = [] then serialIn s' else rx)"
      "serialLastTime s1
          = (if p = [] then serialLastTime s' else millis (ListenByte (Suc k + length p - 1)))"
    by blast
  have run: "listenSerial_while millis k ((c # p) @ rx) s
               = listenSerial_while millis (k + length (c # p)) rx s1"
    using s'(1) s1(1) by simp
  have msg: "message s1 = take 31 (message s @ c # p)"
    using s1(5) s'(5) take_take_append [of 31 "message s @ [c]" p] by simp
  have "unat (serialMessageLength s') \<le> 31"
    using s'(6) by (simp add: uint_le_unat_le)
  then have "unat (serialMessageLength s') \<le> unat (serialMessageLength s1)"
    using arg_cong [OF s1(5), of length] by (simp add: length_message)
  then have stale: "\<forall>i. unat (serialMessageLength s1) \<le> i \<longrightarrow> serialData s1 i = serialData s i"
    using s1(7) s'(7) by auto
  show ?case
    apply (intro exI [of _ s1] conjI)
            apply (rule run)
           apply (rule same_device_trans [OF s'(2) s1(2)])
          apply (simp add: s1(3) s'(3))
         apply (simp add: s1(4) s'(4))
        apply (rule msg)
       apply (rule s1(6))
      apply (rule stale)
     apply (simp add: s1(8) s'(8))
    apply (simp add: s1(9) s'(9))
    done
qed

lemma begin_not_end: "SERIAL_MSG_BEGIN_CHAR \<noteq> SERIAL_MSG_END_CHAR"
  by (simp add: SERIAL_MSG_BEGIN_CHAR_def SERIAL_MSG_END_CHAR_def)

text \<open>A start marker and bytes without an end marker, from an idle receiver.\<close>

lemma begin_and_payload:
  assumes "serialMessageActive s = 0" and "serialMessageLength s = 0"
    and "SERIAL_MSG_END_CHAR \<notin> set p"
  shows "\<exists>s1. listenSerial_while millis 0 (SERIAL_MSG_BEGIN_CHAR # p @ rx) s
               = listenSerial_while millis (Suc (length p)) rx s1
      \<and> same_device s s1
      \<and> serialMessageActive s1 = 1
      \<and> serialMessageAvailable s1 = serialMessageAvailable s
      \<and> message s1 = SERIAL_MSG_BEGIN_CHAR # take 30 p
      \<and> uint (serialMessageLength s1) \<le> 31
      \<and> (\<forall>i. unat (serialMessageLength s1) \<le> i \<longrightarrow> serialData s1 i = serialData s i)
      \<and> serialIn s1 = rx
      \<and> serialLastTime s1 = millis (ListenByte (length p))"
proof -
  define sa where "sa = s\<lparr>serialLastTime := millis (ListenByte 0),
      serialNextChar := SERIAL_MSG_BEGIN_CHAR, serialIn := p @ rx,
      serialMessageLength := 1, serialData := (serialData s)(0 := SERIAL_MSG_BEGIN_CHAR),
      serialMessageActive := 1\<rparr>"
  have first: "listenSerial_char millis 0 SERIAL_MSG_BEGIN_CHAR (p @ rx) s = Some (False, sa)"
    using assms(2) by (simp add: listenSerial_char_begin [OF assms(1)] sa_def)
  have sa: "same_device s sa" "serialMessageActive sa \<noteq> 0"
      "serialMessageAvailable sa = serialMessageAvailable s"
      "message sa = [SERIAL_MSG_BEGIN_CHAR]" "uint (serialMessageLength sa) \<le> 31"
      "serialIn sa = p @ rx" "serialLastTime sa = millis (ListenByte 0)"
      "\<forall>i. 1 \<le> i \<longrightarrow> serialData sa i = serialData s i"
      "serialMessageActive sa = 1"
    by (simp_all add: sa_def same_device_def message_def)
  from accumulate_many [OF sa(2) assms(3) sa(5), of millis "Suc 0" rx]
  obtain s1 where s1: "listenSerial_while millis (Suc 0) (p @ rx) sa
               = listenSerial_while millis (Suc 0 + length p) rx s1"
      "same_device sa s1" "serialMessageActive s1 = serialMessageActive sa"
      "serialMessageAvailable s1 = serialMessageAvailable sa"
      "message s1 = take 31 (message sa @ p)"
      "uint (serialMessageLength s1) \<le> 31"
      "\<forall>i. unat (serialMessageLength s1) \<le> i \<longrightarrow> serialData s1 i = serialData sa i"
      "serialIn s1 = (if p = [] then serialIn sa else rx)"
      "serialLastTime s1
          = (if p = [] then serialLastTime sa else millis (ListenByte (Suc 0 + length p - 1)))"
    by blast
  have msg: "message s1 = SERIAL_MSG_BEGIN_CHAR # take 30 p"
    using s1(5) sa(4) by simp
  have "1 \<le> unat (serialMessageLength s1)"
    using arg_cong [OF msg, of length] by (simp add: length_message)
  then have stale: "\<forall>i. unat (serialMessageLength s1) \<le> i \<longrightarrow> serialData s1 i = serialData s i"
    using s1(7) sa(8) by auto
  show ?thesis
    apply (intro exI [of _ s1] conjI)
            apply (simp add: first s1(1))
           apply (rule same_device_trans [OF sa(1) s1(2)])
          apply (simp add: s1(3) sa(9))
         apply (simp add: s1(4) sa(3))
        apply (rule msg)
       apply (rule s1(6))
      apply (rule stale)
     apply (simp add: s1(8) sa(6))
    apply (simp add: s1(9) sa(7))
    done
qed

text \<open>A whole message on the line, from an idle receiver.\<close>

lemma receive_message:
  assumes "serialMessageActive s = 0" and "serialMessageLength s = 0"
    and "serialIn s = SERIAL_MSG_BEGIN_CHAR # p @ SERIAL_MSG_END_CHAR # rest"
    and "SERIAL_MSG_END_CHAR \<notin> set p"
  shows "\<exists>s1. listenSerial millis s = Some s1
      \<and> same_device s s1
      \<and> serialMessageActive s1 = 0
      \<and> serialMessageAvailable s1 = 1
      \<and> message s1 = SERIAL_MSG_BEGIN_CHAR # take 30 p @ [SERIAL_MSG_END_CHAR]
      \<and> uint (serialMessageLength s1) \<le> 32
      \<and> (\<forall>i. unat (serialMessageLength s1) \<le> i \<longrightarrow> serialData s1 i = serialData s i)
      \<and> serialIn s1 = rest"
proof -
  from begin_and_payload [OF assms(1,2,4), of millis "SERIAL_MSG_END_CHAR # rest"]
  obtain sb where sb: "listenSerial_while millis 0 (serialIn s) s
               = listenSerial_while millis (Suc (length p)) (SERIAL_MSG_END_CHAR # rest) sb"
      "same_device s sb" "serialMessageActive sb = 1"
      "message sb = SERIAL_MSG_BEGIN_CHAR # take 30 p"
      "uint (serialMessageLength sb) \<le> 31"
      "\<forall>i. unat (serialMessageLength sb) \<le> i \<longrightarrow> serialData sb i = serialData s i"
    unfolding assms(3) by blast
  from sb(3) have act: "serialMessageActive sb \<noteq> 0" by simp
  from sb(5) have lt: "uint (serialMessageLength sb) < 32" by simp
  define sc where "sc = sb\<lparr>serialLastTime := millis (ListenByte (Suc (length p))),
      serialNextChar := SERIAL_MSG_END_CHAR, serialIn := rest,
      serialMessageLength := serialMessageLength sb + 1,
      serialData := (serialData sb)(unat (serialMessageLength sb) := SERIAL_MSG_END_CHAR),
      serialMessageActive := 0, serialMessageAvailable := 1\<rparr>"
  have last: "listenSerial_char millis (Suc (length p)) SERIAL_MSG_END_CHAR rest sb = Some (True, sc)"
    using lt by (simp add: listenSerial_char_end [OF act] sc_def)
  have run: "listenSerial millis s = Some sc"
    by (simp add: listenSerial_def sb(1) last)
  have dev: "same_device sb sc"
    by (simp add: sc_def same_device_def)
  have msg: "message sc = message sb @ [SERIAL_MSG_END_CHAR]"
    by (simp add: sc_def message_def unat_length_succ [OF lt])
  have len: "uint (serialMessageLength sc) \<le> 32"
    using sb(5) by (simp add: sc_def uint_length_succ [OF lt])
  have stale: "\<forall>i. unat (serialMessageLength sc) \<le> i \<longrightarrow> serialData sc i = serialData s i"
    using sb(6) by (simp add: sc_def unat_length_succ [OF lt])
  show ?thesis
    apply (intro exI [of _ sc] conjI)
           apply (rule run)
          apply (rule same_device_trans [OF sb(2) dev])
         apply (simp add: sc_def)
        apply (simp add: sc_def)
       apply (simp add: msg sb(4))
      apply (rule len)
     apply (rule stale)
    apply (simp add: sc_def)
    done
qed

section \<open>Messages as they are received and processed\<close>

lemma message_nth:
  "message s = xs \<Longrightarrow> i < length xs \<Longrightarrow> serialData s i = xs ! i"
  by (auto simp: message_def)

lemma setup_power_on:
  "setup_fn (power_on rom) =
     \<lparr>serialData = (\<lambda>_. 0), deviceAddress = DEVICE_ADDRESS, serialMessageActive = 0,
      serialMessageLength = 0, serialNextChar = 0, serialMessageAvailable = 0,
      serialLastTime = 0, setChannelLastTime = (\<lambda>_. 0),
      channelOnTime = (if rom 0 = EEPROM_SET_FLAG then ucast (rom 1) * 10
                       else DEFAULT_CHANNEL_ON_TIME),
      minChannelOffTime = (if rom 2 = EEPROM_SET_FLAG then ucast (rom 3) * 10
                           else DEFAULT_MIN_CHANNEL_OFF_TIME),
      channelOnBitmask = 0, eeprom = rom, serialIn = [], serialOut = []\<rparr>"
  by (simp add: setup_fn_def power_on_def loadChannelOnTime_def loadMinChannelOffTime_def)


text \<open>A command of four characters on the line, from an idle receiver.\<close>

lemma receive_command:
  assumes "serialMessageActive s = 0" and "serialMessageLength s = 0"
    and "serialIn s = SERIAL_MSG_BEGIN_CHAR # [c1, c2, c3, c4] @ SERIAL_MSG_END_CHAR # rest"
    and "SERIAL_MSG_END_CHAR \<notin> set [c1, c2, c3, c4]"
  shows "\<exists>s1. listenSerial millis s = Some s1
      \<and> same_device s s1
      \<and> serialMessageAvailable s1 \<noteq> 0
      \<and> uint (serialMessageLength s1) \<le> SERIAL_MAX_DATA_LENGTH
      \<and> message s1 = [SERIAL_MSG_BEGIN_CHAR, c1, c2, c3, c4, SERIAL_MSG_END_CHAR]
      \<and> readSerialByte 1 s1 = Some (charToNib c1 * 16 + charToNib c2)
      \<and> readSerialByte 3 s1 = Some (charToNib c3 * 16 + charToNib c4)
      \<and> serialIn s1 = rest"
proof -
  from receive_message [OF assms, of millis]
  obtain s1 where s1: "listenSerial millis s = Some s1" "same_device s s1"
      "serialMessageAvailable s1 = 1"
      "message s1 = SERIAL_MSG_BEGIN_CHAR # take 30 [c1, c2, c3, c4] @ [SERIAL_MSG_END_CHAR]"
      "uint (serialMessageLength s1) \<le> 32" "serialIn s1 = rest"
    by blast
  have buf: "serialData s1 1 = c1" "serialData s1 2 = c2" "serialData s1 3 = c3"
      "serialData s1 4 = c4"
    using message_nth [OF s1(4), of 1] message_nth [OF s1(4), of 2]
      message_nth [OF s1(4), of 3] message_nth [OF s1(4), of 4]
    by simp_all
  show ?thesis
    using s1 buf by (simp add: SERIAL_MAX_DATA_LENGTH_def readSerialByte_1 readSerialByte_3)
qed

text \<open>
  C1. In a complete message whose characters 1 to 4 are hexadecimal digits,
  \<open>processSerial\<close> reads the address from characters 1 and 2 and the command from
  characters 3 and 4, each as sixteen times the value of the first digit plus the value
  of the second. When the address is the device's own, every channel whose bit is set
  in the command goes through its round of the channel loop, which is the request to
  switch it on, and every channel whose bit is clear keeps its state and its time
  stamp. The message \<open><0194>\<close> at device address 1 asks for channels 2, 4 and 7.
\<close>

theorem decode_and_dispatch:
  assumes "serialMessageAvailable s \<noteq> 0"
    and "uint (serialMessageLength s) \<le> SERIAL_MAX_DATA_LENGTH"
    and "(a1, v1) \<in> set hex_digit_values" and "(a2, v2) \<in> set hex_digit_values"
    and "(b1, w1) \<in> set hex_digit_values" and "(b2, w2) \<in> set hex_digit_values"
    and "serialData s 1 = of_char a1" and "serialData s 2 = of_char a2"
    and "serialData s 3 = of_char b1" and "serialData s 4 = of_char b2"
  shows "readSerialByte 1 s = Some (v1 * 16 + v2)
     \<and> readSerialByte 3 s = Some (w1 * 16 + w2)
     \<and> (v1 * 16 + v2 = deviceAddress s \<longrightarrow>
          (\<exists>s'. processSerial millis s = Some s'
             \<and> (\<forall>i. channel i s' =
                   (if bit (w1 * 16 + w2) i
                    then channel i (processSerial_channel millis (w1 * 16 + w2) i
                                      (processSerial_config (v1 * 16 + v2) (w1 * 16 + w2) s))
                    else channel i s))))"
proof -
  have addr: "readSerialByte 1 s = Some (v1 * 16 + v2)"
    using assms(3,4,7,8) by (simp add: readSerialByte_1 charToNib_hex_digit)
  have cmd: "readSerialByte 3 s = Some (w1 * 16 + w2)"
    using assms(5,6,9,10) by (simp add: readSerialByte_3 charToNib_hex_digit)
  show ?thesis
    using addr cmd processSerial_available [OF assms(1,2) addr cmd, of millis]
    by (simp add: channel_after_relay processSerial_dispatch_channel)
qed


theorem decode_and_dispatch_witness:
  "\<exists>s1 s'. listenSerial (\<lambda>_. 5000)
        (receive (bytes ''<0194>'') (setup_fn (power_on (\<lambda>_. 0))\<lparr>deviceAddress := 1\<rparr>)) = Some s1
     \<and> readSerialByte 1 s1 = Some 1 \<and> readSerialByte 3 s1 = Some 0x94
     \<and> processSerial (\<lambda>_. 5000) s1 = Some s'
     \<and> channel 0 s' = (False, 0) \<and> channel 1 s' = (False, 0) \<and> channel 2 s' = (True, 5000)
     \<and> channel 3 s' = (False, 0) \<and> channel 4 s' = (True, 5000) \<and> channel 5 s' = (False, 0)
     \<and> channel 6 s' = (False, 0) \<and> channel 7 s' = (True, 5000)"
proof -
  define s0 where "s0 = receive (bytes ''<0194>'') (setup_fn (power_on (\<lambda>_. 0))\<lparr>deviceAddress := 1\<rparr>)"
  have s0: "serialMessageActive s0 = 0" "serialMessageLength s0 = 0"
    "serialIn s0 = SERIAL_MSG_BEGIN_CHAR # bytes ''0194'' @ SERIAL_MSG_END_CHAR # []"
    "SERIAL_MSG_END_CHAR \<notin> set (bytes ''0194'')"
    by (simp_all add: s0_def receive_def setup_power_on bytes_def
          SERIAL_MSG_BEGIN_CHAR_def SERIAL_MSG_END_CHAR_def)
  from receive_message [OF s0, of "\<lambda>_. 5000"]
  obtain s1 where s1: "listenSerial (\<lambda>_. 5000) s0 = Some s1" "same_device s0 s1"
      "serialMessageAvailable s1 = 1"
      "message s1 = SERIAL_MSG_BEGIN_CHAR # take 30 (bytes ''0194'') @ [SERIAL_MSG_END_CHAR]"
      "uint (serialMessageLength s1) \<le> 32"
    by blast
  have buf: "serialData s1 1 = of_char CHR ''0''" "serialData s1 2 = of_char CHR ''1''"
      "serialData s1 3 = of_char CHR ''9''" "serialData s1 4 = of_char CHR ''4''"
    using message_nth [OF s1(4), of 1] message_nth [OF s1(4), of 2]
      message_nth [OF s1(4), of 3] message_nth [OF s1(4), of 4]
    by (simp_all add: bytes_def)
  have dev: "deviceAddress s1 = 1" "channelOnBitmask s1 = 0" "setChannelLastTime s1 = (\<lambda>_. 0)"
      "minChannelOffTime s1 = 40"
    using s1(2)
    by (simp_all add: same_device_def s0_def receive_def setup_power_on EEPROM_SET_FLAG_def
          DEFAULT_MIN_CHANNEL_OFF_TIME_def)
  have av: "serialMessageAvailable s1 \<noteq> 0" "uint (serialMessageLength s1) \<le> SERIAL_MAX_DATA_LENGTH"
    using s1(3,5) by (simp_all add: SERIAL_MAX_DATA_LENGTH_def)
  have digits: "(CHR ''0'', 0) \<in> set hex_digit_values" "(CHR ''1'', 1) \<in> set hex_digit_values"
      "(CHR ''9'', 9) \<in> set hex_digit_values" "(CHR ''4'', 4) \<in> set hex_digit_values"
    by (simp_all add: hex_digit_values_def)
  from decode_and_dispatch [OF av digits buf, of "\<lambda>_. 5000"] dev(1)
  obtain s' where s': "readSerialByte 1 s1 = Some 1" "readSerialByte 3 s1 = Some 0x94"
      "processSerial (\<lambda>_. 5000) s1 = Some s'"
      "\<forall>i. channel i s' =
             (if bit (0x94 :: uint8_t) i
              then channel i (processSerial_channel (\<lambda>_. 5000) 0x94 i (processSerial_config 1 0x94 s1))
              else channel i s1)"
    by auto
  have cfg: "processSerial_config 1 0x94 s1 = s1"
    by (simp add: processSerial_config_def)
  have ch: "channel 0 s' = (False, 0)" "channel 1 s' = (False, 0)" "channel 2 s' = (True, 5000)"
     "channel 3 s' = (False, 0)" "channel 4 s' = (True, 5000)" "channel 5 s' = (False, 0)"
     "channel 6 s' = (False, 0)" "channel 7 s' = (True, 5000)"
    using s'(4) by (simp_all add: cfg processSerial_channel_def channel_def dev)
  show ?thesis
    using s1(1) s'(1,2,3) ch unfolding s0_def by blast
qed

text \<open>
  C8. A message whose address is not the device's own, the configuration addresses
  254 and 255 among them, leaves \<open>channelOnBitmask\<close> and every \<open>setChannelLastTime\<close> as
  they were. The message is sent on and the receiver made ready for the next one; a
  configuration command changes the timing configuration and the EEPROM besides, and
  a message with any other address changes nothing else.
\<close>

theorem other_address_no_channel_action:
  assumes "serialMessageAvailable s \<noteq> 0"
    and "uint (serialMessageLength s) \<le> SERIAL_MAX_DATA_LENGTH"
    and "readSerialByte 1 s = Some addr" and "readSerialByte 3 s = Some cmd"
    and "addr \<noteq> deviceAddress s"
  shows "\<exists>s'. processSerial millis s = Some s'
     \<and> channelOnBitmask s' = channelOnBitmask s
     \<and> setChannelLastTime s' = setChannelLastTime s
     \<and> s' = (processSerial_config addr cmd s)
              \<lparr>serialOut := serialOut s @ message s @ println_empty,
               serialMessageAvailable := 0, serialMessageLength := 0\<rparr>
     \<and> (addr \<noteq> 0xFF \<and> addr \<noteq> 0xFE \<longrightarrow> processSerial_config addr cmd s = s)"
  using assms(5) processSerial_available [OF assms(1-4), of millis]
  by (simp add: processSerial_dispatch_eq processSerial_config_fields)
     (simp add: processSerial_config_def)

theorem other_address_no_channel_action_witness:
  "\<exists>s1 s'. listenSerial (\<lambda>_. 5000)
        (receive (bytes ''<FE03>'') (setup_fn (power_on (\<lambda>_. 0)))) = Some s1
     \<and> readSerialByte 1 s1 = Some 0xFE \<and> readSerialByte 3 s1 = Some 3
     \<and> 0xFE \<noteq> deviceAddress s1
     \<and> processSerial (\<lambda>_. 5000) s1 = Some s'
     \<and> channelOnBitmask s' = 0 \<and> setChannelLastTime s' = (\<lambda>_. 0)
     \<and> minChannelOffTime s' = 30"
proof -
  define s0 where "s0 = receive (bytes ''<FE03>'') (setup_fn (power_on (\<lambda>_. 0)))"
  have s0: "serialMessageActive s0 = 0" "serialMessageLength s0 = 0"
    "serialIn s0 = SERIAL_MSG_BEGIN_CHAR # [70, 69, 48, 51] @ SERIAL_MSG_END_CHAR # []"
    "SERIAL_MSG_END_CHAR \<notin> set [70, 69, 48, 51]"
    by (simp_all add: s0_def receive_def setup_power_on bytes_def
          SERIAL_MSG_BEGIN_CHAR_def SERIAL_MSG_END_CHAR_def)
  from receive_command [OF s0, of "\<lambda>_. 5000"]
  obtain s1 where s1: "listenSerial (\<lambda>_. 5000) s0 = Some s1" "same_device s0 s1"
      "serialMessageAvailable s1 \<noteq> 0"
      "uint (serialMessageLength s1) \<le> SERIAL_MAX_DATA_LENGTH"
      "readSerialByte 1 s1 = Some (charToNib 70 * 16 + charToNib 69)"
      "readSerialByte 3 s1 = Some (charToNib 48 * 16 + charToNib 51)"
    by blast
  have rd: "readSerialByte 1 s1 = Some 0xFE" "readSerialByte 3 s1 = Some 3"
    using s1(5,6) by (simp_all add: charToNib_def)
  have dev: "deviceAddress s1 = 0" "channelOnBitmask s1 = 0" "setChannelLastTime s1 = (\<lambda>_. 0)"
    using s1(2)
    by (simp_all add: same_device_def s0_def receive_def setup_power_on DEVICE_ADDRESS_def)
  then have other: "0xFE \<noteq> deviceAddress s1" by simp
  from other_address_no_channel_action [OF s1(3,4) rd other, of "\<lambda>_. 5000"]
  obtain s' where s': "processSerial (\<lambda>_. 5000) s1 = Some s'"
      "channelOnBitmask s' = channelOnBitmask s1" "setChannelLastTime s' = setChannelLastTime s1"
      "s' = (processSerial_config 0xFE 3 s1)
              \<lparr>serialOut := serialOut s1 @ message s1 @ println_empty,
               serialMessageAvailable := 0, serialMessageLength := 0\<rparr>"
    by blast
  have "minChannelOffTime s' = 30"
    by (simp add: s'(4) processSerial_config_def setMinChannelOffTime_def)
  with s1(1) rd other s'(1,2,3) dev show ?thesis
    unfolding s0_def by auto
qed

section \<open>The timing configuration over a power cycle\<close>

text \<open>
  A command byte times ten is at most 2550 and fits the 16 bits of an \<open>int\<close>.
\<close>

lemma centiseconds_to_ms:
  "sint (ucast (v :: uint8_t) * 10 :: int16_t) = uint v * 10"
proof -
  have b: "uint v < 256" using uint_bounded [of v] by simp
  have nn: "0 \<le> uint v" by simp
  have "(ucast v * 10 :: int16_t) = word_of_int (uint v * 10)"
    by simp
  moreover have "sint (word_of_int (uint v * 10) :: int16_t) = uint v * 10"
    unfolding sint_sbintrunc'
  proof (rule signed_take_bit_int_eq_self)
    have "- (2 ^ (LENGTH(16) - 1)) \<le> (0::int)" by simp
    also have "0 \<le> uint v * 10" using nn by simp
    finally show "- (2 ^ (LENGTH(16) - 1)) \<le> uint v * 10" .
    have "uint v * 10 < 2560" using b by linarith
    also have "(2560::int) < 2 ^ (LENGTH(16) - 1)" by simp
    finally show "uint v * 10 < 2 ^ (LENGTH(16) - 1)" .
  qed
  ultimately show ?thesis by simp
qed

lemma processSerial_config_on_time:
  "eeprom (processSerial_config 0xFF v s) 0 = EEPROM_SET_FLAG"
  "eeprom (processSerial_config 0xFF v s) 1 = v"
  "channelOnTime (processSerial_config 0xFF v s) = ucast v * 10"
  by (simp_all add: processSerial_config_def setChannelOnTime_def)

lemma processSerial_config_off_time:
  "eeprom (processSerial_config 0xFE v s) 2 = EEPROM_SET_FLAG"
  "eeprom (processSerial_config 0xFE v s) 3 = v"
  "minChannelOffTime (processSerial_config 0xFE v s) = ucast v * 10"
  by (simp_all add: processSerial_config_def setMinChannelOffTime_def)

lemma processSerial_dispatch_config:
  "eeprom (processSerial_dispatch millis addr cmd s) = eeprom (processSerial_config addr cmd s)"
  "channelOnTime (processSerial_dispatch millis addr cmd s)
     = channelOnTime (processSerial_config addr cmd s)"
  "minChannelOffTime (processSerial_dispatch millis addr cmd s)
     = minChannelOffTime (processSerial_config addr cmd s)"
  by (simp_all add: processSerial_dispatch_eq processSerial_for_fields)

text \<open>
  C4. For every command byte \<open>v\<close>, a message with address \<open>0xFF\<close> writes the flag to
  EEPROM cell 0 and \<open>v\<close> to cell 1 and sets \<open>channelOnTime\<close> to \<open>v * 10\<close> milliseconds;
  loading from the same EEPROM, as \<open>setup\<close> does after a reset, gives the same
  \<open>channelOnTime\<close>. A message with address \<open>0xFE\<close> does the same with cells 2 and 3
  and \<open>minChannelOffTime\<close>. The message \<open><FF19>\<close> gives 250 milliseconds before and
  after a power cycle.
\<close>

theorem config_round_trip:
  assumes "serialMessageAvailable s \<noteq> 0"
    and "uint (serialMessageLength s) \<le> SERIAL_MAX_DATA_LENGTH"
    and "readSerialByte 1 s = Some addr" and "readSerialByte 3 s = Some v"
  shows "\<exists>s'. processSerial millis s = Some s'
     \<and> (addr = 0xFF \<longrightarrow>
           eeprom s' 0 = EEPROM_SET_FLAG \<and> eeprom s' 1 = v
         \<and> sint (channelOnTime s') = uint v * 10
         \<and> (\<forall>r. eeprom r = eeprom s' \<longrightarrow> channelOnTime (loadChannelOnTime r) = channelOnTime s')
         \<and> channelOnTime (setup_fn (power_on (eeprom s'))) = channelOnTime s')
     \<and> (addr = 0xFE \<longrightarrow>
           eeprom s' 2 = EEPROM_SET_FLAG \<and> eeprom s' 3 = v
         \<and> sint (minChannelOffTime s') = uint v * 10
         \<and> (\<forall>r. eeprom r = eeprom s' \<longrightarrow>
                minChannelOffTime (loadMinChannelOffTime r) = minChannelOffTime s')
         \<and> minChannelOffTime (setup_fn (power_on (eeprom s'))) = minChannelOffTime s')"
proof -
  define s' where "s' = (processSerial_dispatch millis addr v s)
            \<lparr>serialOut := serialOut s @ message s @ println_empty,
             serialMessageAvailable := 0, serialMessageLength := 0\<rparr>"
  have run: "processSerial millis s = Some s'"
    unfolding s'_def by (rule processSerial_available [OF assms])
  have on: "eeprom s' 0 = EEPROM_SET_FLAG \<and> eeprom s' 1 = v
         \<and> sint (channelOnTime s') = uint v * 10
         \<and> (\<forall>r. eeprom r = eeprom s' \<longrightarrow> channelOnTime (loadChannelOnTime r) = channelOnTime s')
         \<and> channelOnTime (setup_fn (power_on (eeprom s'))) = channelOnTime s'"
    if "addr = 0xFF"
    using that processSerial_config_on_time [of v s]
    by (simp add: s'_def processSerial_dispatch_config
          centiseconds_to_ms loadChannelOnTime_def setup_power_on)
  have off: "eeprom s' 2 = EEPROM_SET_FLAG \<and> eeprom s' 3 = v
         \<and> sint (minChannelOffTime s') = uint v * 10
         \<and> (\<forall>r. eeprom r = eeprom s' \<longrightarrow>
                minChannelOffTime (loadMinChannelOffTime r) = minChannelOffTime s')
         \<and> minChannelOffTime (setup_fn (power_on (eeprom s'))) = minChannelOffTime s'"
    if "addr = 0xFE"
    using that processSerial_config_off_time [of v s]
    by (simp add: s'_def processSerial_dispatch_config
          centiseconds_to_ms loadMinChannelOffTime_def setup_power_on)
  from run on off show ?thesis by blast
qed

theorem config_round_trip_witness:
  "(\<exists>s1 s'. listenSerial (\<lambda>_. 5000)
        (receive (bytes ''<FF19>'') (setup_fn (power_on (\<lambda>_. 0)))) = Some s1
     \<and> readSerialByte 1 s1 = Some 0xFF \<and> readSerialByte 3 s1 = Some 0x19
     \<and> processSerial (\<lambda>_. 5000) s1 = Some s'
     \<and> eeprom s' 0 = 100 \<and> eeprom s' 1 = 0x19
     \<and> sint (channelOnTime s') = 250
     \<and> sint (channelOnTime (setup_fn (power_on (eeprom s')))) = 250)
   \<and> (\<exists>s1 s'. listenSerial (\<lambda>_. 5000)
        (receive (bytes ''<FE03>'') (setup_fn (power_on (\<lambda>_. 0)))) = Some s1
     \<and> readSerialByte 1 s1 = Some 0xFE \<and> readSerialByte 3 s1 = Some 3
     \<and> processSerial (\<lambda>_. 5000) s1 = Some s'
     \<and> eeprom s' 2 = 100 \<and> eeprom s' 3 = 3
     \<and> sint (minChannelOffTime s') = 30
     \<and> sint (minChannelOffTime (setup_fn (power_on (eeprom s')))) = 30)"
proof
  define s0 where "s0 = receive (bytes ''<FF19>'') (setup_fn (power_on (\<lambda>_. 0)))"
  have s0: "serialMessageActive s0 = 0" "serialMessageLength s0 = 0"
    "serialIn s0 = SERIAL_MSG_BEGIN_CHAR # [70, 70, 49, 57] @ SERIAL_MSG_END_CHAR # []"
    "SERIAL_MSG_END_CHAR \<notin> set [70, 70, 49, 57]"
    by (simp_all add: s0_def receive_def setup_power_on bytes_def
          SERIAL_MSG_BEGIN_CHAR_def SERIAL_MSG_END_CHAR_def)
  from receive_command [OF s0, of "\<lambda>_. 5000"]
  obtain s1 where s1: "listenSerial (\<lambda>_. 5000) s0 = Some s1"
      "serialMessageAvailable s1 \<noteq> 0"
      "uint (serialMessageLength s1) \<le> SERIAL_MAX_DATA_LENGTH"
      "readSerialByte 1 s1 = Some (charToNib 70 * 16 + charToNib 70)"
      "readSerialByte 3 s1 = Some (charToNib 49 * 16 + charToNib 57)"
    by blast
  have rd: "readSerialByte 1 s1 = Some 0xFF" "readSerialByte 3 s1 = Some 0x19"
    using s1(4,5) by (simp_all add: charToNib_def)
  from config_round_trip [OF s1(2,3) rd, of "\<lambda>_. 5000"]
  obtain s' where s': "processSerial (\<lambda>_. 5000) s1 = Some s'"
      "eeprom s' 0 = EEPROM_SET_FLAG" "eeprom s' 1 = 0x19"
      "sint (channelOnTime s') = uint (0x19 :: uint8_t) * 10"
      "channelOnTime (setup_fn (power_on (eeprom s'))) = channelOnTime s'"
    by auto
  from s1(1) rd s' show "\<exists>s1 s'. listenSerial (\<lambda>_. 5000)
        (receive (bytes ''<FF19>'') (setup_fn (power_on (\<lambda>_. 0)))) = Some s1
     \<and> readSerialByte 1 s1 = Some 0xFF \<and> readSerialByte 3 s1 = Some 0x19
     \<and> processSerial (\<lambda>_. 5000) s1 = Some s'
     \<and> eeprom s' 0 = 100 \<and> eeprom s' 1 = 0x19
     \<and> sint (channelOnTime s') = 250
     \<and> sint (channelOnTime (setup_fn (power_on (eeprom s')))) = 250"
    unfolding s0_def by (auto simp: EEPROM_SET_FLAG_def)
next
  define s0 where "s0 = receive (bytes ''<FE03>'') (setup_fn (power_on (\<lambda>_. 0)))"
  have s0: "serialMessageActive s0 = 0" "serialMessageLength s0 = 0"
    "serialIn s0 = SERIAL_MSG_BEGIN_CHAR # [70, 69, 48, 51] @ SERIAL_MSG_END_CHAR # []"
    "SERIAL_MSG_END_CHAR \<notin> set [70, 69, 48, 51]"
    by (simp_all add: s0_def receive_def setup_power_on bytes_def
          SERIAL_MSG_BEGIN_CHAR_def SERIAL_MSG_END_CHAR_def)
  from receive_command [OF s0, of "\<lambda>_. 5000"]
  obtain s1 where s1: "listenSerial (\<lambda>_. 5000) s0 = Some s1"
      "serialMessageAvailable s1 \<noteq> 0"
      "uint (serialMessageLength s1) \<le> SERIAL_MAX_DATA_LENGTH"
      "readSerialByte 1 s1 = Some (charToNib 70 * 16 + charToNib 69)"
      "readSerialByte 3 s1 = Some (charToNib 48 * 16 + charToNib 51)"
    by blast
  have rd: "readSerialByte 1 s1 = Some 0xFE" "readSerialByte 3 s1 = Some 3"
    using s1(4,5) by (simp_all add: charToNib_def)
  from config_round_trip [OF s1(2,3) rd, of "\<lambda>_. 5000"]
  obtain s' where s': "processSerial (\<lambda>_. 5000) s1 = Some s'"
      "eeprom s' 2 = EEPROM_SET_FLAG" "eeprom s' 3 = 3"
      "sint (minChannelOffTime s') = uint (3 :: uint8_t) * 10"
      "minChannelOffTime (setup_fn (power_on (eeprom s'))) = minChannelOffTime s'"
    by auto
  from s1(1) rd s' show "\<exists>s1 s'. listenSerial (\<lambda>_. 5000)
        (receive (bytes ''<FE03>'') (setup_fn (power_on (\<lambda>_. 0)))) = Some s1
     \<and> readSerialByte 1 s1 = Some 0xFE \<and> readSerialByte 3 s1 = Some 3
     \<and> processSerial (\<lambda>_. 5000) s1 = Some s'
     \<and> eeprom s' 2 = 100 \<and> eeprom s' 3 = 3
     \<and> sint (minChannelOffTime s') = 30
     \<and> sint (minChannelOffTime (setup_fn (power_on (eeprom s')))) = 30"
    unfolding s0_def by (auto simp: EEPROM_SET_FLAG_def)
qed

section \<open>Sending a message on\<close>

lemma processSerial_relays:
  assumes "serialMessageAvailable s \<noteq> 0"
    and "uint (serialMessageLength s) \<le> SERIAL_MAX_DATA_LENGTH"
  shows "\<exists>s'. processSerial millis s = Some s'
      \<and> serialOut s' = serialOut s @ message s @ println_empty
      \<and> serialMessageAvailable s' = 0 \<and> serialMessageLength s' = 0
      \<and> serialMessageActive s' = serialMessageActive s
      \<and> serialIn s' = serialIn s"
proof -
  have "serialMessageActive (processSerial_for millis c r) = serialMessageActive r" for c r
    by (subst processSerial_for_frame) simp
  then have act: "serialMessageActive (processSerial_dispatch millis a c s) = serialMessageActive s"
    for a c
    by (simp add: processSerial_dispatch_eq processSerial_config_def setChannelOnTime_def
          setMinChannelOffTime_def Let_def)
  show ?thesis
    using processSerial_available [OF assms readSerialByte_1 readSerialByte_3, of millis]
    by (simp add: processSerial_dispatch_fields act)
qed

text \<open>
  C5. Whatever its address, a complete message is written to the serial output as it
  stands in the buffer, followed by one line end (carriage return and line feed), and
  by nothing else. A message of at most 32 bytes that arrives at an idle receiver, from
  its start marker to its end marker, stands in the buffer as it arrived, so the bytes
  sent are the bytes received.
\<close>

theorem relay_verbatim:
  "(serialMessageAvailable s \<noteq> 0 \<and> uint (serialMessageLength s) \<le> SERIAL_MAX_DATA_LENGTH
      \<longrightarrow> (\<exists>s'. processSerial millis s = Some s'
             \<and> serialOut s' = serialOut s @ message s @ println_empty))
   \<and> (serialMessageActive s = 0 \<and> serialMessageLength s = 0
        \<and> serialIn s = SERIAL_MSG_BEGIN_CHAR # p @ SERIAL_MSG_END_CHAR # rest
        \<and> SERIAL_MSG_END_CHAR \<notin> set p \<and> length p \<le> 30
      \<longrightarrow> (\<exists>s1 s2. listenSerial millis1 s = Some s1
             \<and> message s1 = SERIAL_MSG_BEGIN_CHAR # p @ [SERIAL_MSG_END_CHAR]
             \<and> processSerial millis2 s1 = Some s2
             \<and> serialOut s2 = serialOut s @ (SERIAL_MSG_BEGIN_CHAR # p @ [SERIAL_MSG_END_CHAR])
                                @ println_empty))"
proof (intro conjI impI)
  assume "serialMessageAvailable s \<noteq> 0 \<and> uint (serialMessageLength s) \<le> SERIAL_MAX_DATA_LENGTH"
  then show "\<exists>s'. processSerial millis s = Some s'
             \<and> serialOut s' = serialOut s @ message s @ println_empty"
    using processSerial_relays [of s millis] by blast
next
  assume a: "serialMessageActive s = 0 \<and> serialMessageLength s = 0
        \<and> serialIn s = SERIAL_MSG_BEGIN_CHAR # p @ SERIAL_MSG_END_CHAR # rest
        \<and> SERIAL_MSG_END_CHAR \<notin> set p \<and> length p \<le> 30"
  from a receive_message [of s p rest millis1]
  obtain s1 where s1: "listenSerial millis1 s = Some s1" "same_device s s1"
      "serialMessageAvailable s1 = 1"
      "message s1 = SERIAL_MSG_BEGIN_CHAR # take 30 p @ [SERIAL_MSG_END_CHAR]"
      "uint (serialMessageLength s1) \<le> 32"
    by blast
  from s1(3,5) have "serialMessageAvailable s1 \<noteq> 0"
      "uint (serialMessageLength s1) \<le> SERIAL_MAX_DATA_LENGTH"
    by (simp_all add: SERIAL_MAX_DATA_LENGTH_def)
  from processSerial_relays [OF this, of millis2]
  obtain s2 where s2: "processSerial millis2 s1 = Some s2"
      "serialOut s2 = serialOut s1 @ message s1 @ println_empty"
    by blast
  from a s1(4) have msg: "message s1 = SERIAL_MSG_BEGIN_CHAR # p @ [SERIAL_MSG_END_CHAR]"
    by simp
  from s1(2) have "serialOut s1 = serialOut s"
    by (simp add: same_device_def)
  with s1(1) s2 msg show "\<exists>s1 s2. listenSerial millis1 s = Some s1
             \<and> message s1 = SERIAL_MSG_BEGIN_CHAR # p @ [SERIAL_MSG_END_CHAR]
             \<and> processSerial millis2 s1 = Some s2
             \<and> serialOut s2 = serialOut s @ (SERIAL_MSG_BEGIN_CHAR # p @ [SERIAL_MSG_END_CHAR])
                                @ println_empty"
    by auto
qed

theorem relay_verbatim_witness:
  "\<exists>s1 s2. listenSerial (\<lambda>_. 5000)
        (receive (bytes ''<0794>'') (setup_fn (power_on (\<lambda>_. 0)))) = Some s1
     \<and> processSerial (\<lambda>_. 5000) s1 = Some s2
     \<and> serialOut s2 = bytes ''<0794>'' @ [13, 10]"
proof -
  define s0 where "s0 = receive (bytes ''<0794>'') (setup_fn (power_on (\<lambda>_. 0)))"
  have s0: "serialMessageActive s0 = 0 \<and> serialMessageLength s0 = 0
    \<and> serialIn s0 = SERIAL_MSG_BEGIN_CHAR # bytes ''0794'' @ SERIAL_MSG_END_CHAR # []
    \<and> SERIAL_MSG_END_CHAR \<notin> set (bytes ''0794'') \<and> length (bytes ''0794'') \<le> 30"
    by (simp add: s0_def receive_def setup_power_on bytes_def
          SERIAL_MSG_BEGIN_CHAR_def SERIAL_MSG_END_CHAR_def)
  have out: "serialOut s0 = []"
    by (simp add: s0_def receive_def setup_power_on)
  from relay_verbatim [of s0 "\<lambda>_. 5000" "bytes ''0794''" "[]" "\<lambda>_. 5000" "\<lambda>_. 5000"] s0
  obtain s1 s2 where "listenSerial (\<lambda>_. 5000) s0 = Some s1"
      "processSerial (\<lambda>_. 5000) s1 = Some s2"
      "serialOut s2 = serialOut s0 @ (SERIAL_MSG_BEGIN_CHAR # bytes ''0794'' @ [SERIAL_MSG_END_CHAR])
                                @ println_empty"
    by blast
  then show ?thesis
    unfolding s0_def [symmetric]
    by (auto simp: out bytes_def SERIAL_MSG_BEGIN_CHAR_def SERIAL_MSG_END_CHAR_def println_empty_def)
qed

section \<open>The buffer and its bounds\<close>

text \<open>One byte keeps the buffer within its bounds.\<close>

lemma listenSerial_char_ready:
  assumes "uint (serialMessageLength s) \<le> 31"
    and "serialMessageActive s = 0 \<longrightarrow> serialMessageLength s = 0"
  shows "\<exists>r s'. listenSerial_char millis k c rx s = Some (r, s')
      \<and> same_device s s'
      \<and> (r \<longrightarrow> serialMessageAvailable s' = 1 \<and> uint (serialMessageLength s') \<le> 32)
      \<and> (\<not> r \<longrightarrow> uint (serialMessageLength s') \<le> 31
               \<and> (serialMessageActive s' = 0 \<longrightarrow> serialMessageLength s' = 0)
               \<and> serialMessageAvailable s' = serialMessageAvailable s)"
proof (cases "serialMessageActive s = 0")
  case idle: True
  with assms(2) have len: "serialMessageLength s = 0" by simp
  show ?thesis
  proof (cases "c = SERIAL_MSG_BEGIN_CHAR")
    case True
    then show ?thesis
      using len by (auto simp: listenSerial_char_begin [OF idle] same_device_def)
  next
    case False
    then show ?thesis
      using len idle by (auto simp: listenSerial_char_ignored [OF idle False] same_device_def)
  qed
next
  case active: False
  from assms(1) have lt: "uint (serialMessageLength s) < 32" by simp
  show ?thesis
  proof (cases "c = SERIAL_MSG_END_CHAR")
    case True
    then show ?thesis
      using lt assms(1)
      by (auto simp: listenSerial_char_end [OF active] same_device_def uint_length_succ [OF lt])
  next
    case False
    then show ?thesis
      using active lt
      by (auto simp: listenSerial_char_accumulating [OF active False] same_device_def
            uint_length_succ [OF lt])
  qed
qed

lemma listenSerial_while_ready:
  assumes "uint (serialMessageLength s) \<le> 31"
    and "serialMessageActive s = 0 \<longrightarrow> serialMessageLength s = 0"
  shows "\<exists>r s'. listenSerial_while millis k rx s = Some (r, s')
      \<and> same_device s s'
      \<and> (r \<longrightarrow> serialMessageAvailable s' = 1 \<and> uint (serialMessageLength s') \<le> 32)
      \<and> (\<not> r \<longrightarrow> uint (serialMessageLength s') \<le> 31
               \<and> (serialMessageActive s' = 0 \<longrightarrow> serialMessageLength s' = 0)
               \<and> serialMessageAvailable s' = serialMessageAvailable s)"
  using assms
proof (induction rx arbitrary: s k)
  case Nil
  then show ?case by (auto simp: same_device_refl)
next
  case (Cons c rx)
  from listenSerial_char_ready [OF Cons.prems, of millis k c rx]
  obtain r s1 where s1: "listenSerial_char millis k c rx s = Some (r, s1)"
      "same_device s s1"
      "r \<longrightarrow> serialMessageAvailable s1 = 1 \<and> uint (serialMessageLength s1) \<le> 32"
      "\<not> r \<longrightarrow> uint (serialMessageLength s1) \<le> 31
               \<and> (serialMessageActive s1 = 0 \<longrightarrow> serialMessageLength s1 = 0)
               \<and> serialMessageAvailable s1 = serialMessageAvailable s"
    by blast
  show ?case
  proof (cases r)
    case True
    with s1 show ?thesis by auto
  next
    case False
    with s1(4) have ready: "uint (serialMessageLength s1) \<le> 31"
        "serialMessageActive s1 = 0 \<longrightarrow> serialMessageLength s1 = 0"
        and av: "serialMessageAvailable s1 = serialMessageAvailable s"
      by simp_all
    from Cons.IH [OF ready, of "Suc k"]
    obtain r' s' where s': "listenSerial_while millis (Suc k) rx s1 = Some (r', s')"
      "same_device s1 s'"
      "r' \<longrightarrow> serialMessageAvailable s' = 1 \<and> uint (serialMessageLength s') \<le> 32"
      "\<not> r' \<longrightarrow> uint (serialMessageLength s') \<le> 31
               \<and> (serialMessageActive s' = 0 \<longrightarrow> serialMessageLength s' = 0)
               \<and> serialMessageAvailable s' = serialMessageAvailable s1"
      by blast
    have "listenSerial_while millis k (c # rx) s = Some (r', s')"
      using s1(1) False s'(1) by simp
    moreover have "same_device s s'"
      by (rule same_device_trans [OF s1(2) s'(2)])
    ultimately show ?thesis
      using s'(3,4) av by auto
  qed
qed

text \<open>
  A round of the main loop that starts with the receiver ready ends with the receiver
  ready, and no access to the buffer is outside it.
\<close>

lemma listenSerial_ready:
  assumes "receiver_ready s"
  shows "\<exists>s'. listenSerial millis s = Some s' \<and> same_device s s'
      \<and> uint (serialMessageLength s') \<le> 32
      \<and> (serialMessageAvailable s' = 0 \<longrightarrow> receiver_ready s')"
proof -
  from assms have pre: "uint (serialMessageLength s) \<le> 31"
      "serialMessageActive s = 0 \<longrightarrow> serialMessageLength s = 0"
      and av: "serialMessageAvailable s = 0"
    by (simp_all add: receiver_ready_def)
  from listenSerial_while_ready [OF pre, of millis 0 "serialIn s"]
  obtain r s1 where s1: "listenSerial_while millis 0 (serialIn s) s = Some (r, s1)"
      "same_device s s1"
      "r \<longrightarrow> serialMessageAvailable s1 = 1 \<and> uint (serialMessageLength s1) \<le> 32"
      "\<not> r \<longrightarrow> uint (serialMessageLength s1) \<le> 31
               \<and> (serialMessageActive s1 = 0 \<longrightarrow> serialMessageLength s1 = 0)
               \<and> serialMessageAvailable s1 = serialMessageAvailable s"
    by blast
  show ?thesis
  proof (cases r)
    case True
    with s1 show ?thesis by (auto simp: listenSerial_def)
  next
    case False
    with s1 av show ?thesis
      by (auto simp: listenSerial_def receiver_ready_def same_device_def)
  qed
qed

lemma loop_ready:
  assumes "receiver_ready s"
  shows "\<exists>s'. loop millis s = Some s' \<and> receiver_ready s'"
proof -
  from listenSerial_ready [OF assms, of millis]
  obtain s1 where s1: "listenSerial millis s = Some s1"
      "uint (serialMessageLength s1) \<le> 32"
      "serialMessageAvailable s1 = 0 \<longrightarrow> receiver_ready s1"
    by blast
  have "\<exists>s2. processSerial millis s1 = Some s2 \<and> receiver_ready s2"
  proof (cases "serialMessageAvailable s1 = 0")
    case True
    with s1(3) show ?thesis by (simp add: processSerial_def)
  next
    case False
    from s1(2) have "uint (serialMessageLength s1) \<le> SERIAL_MAX_DATA_LENGTH"
      by (simp add: SERIAL_MAX_DATA_LENGTH_def)
    from processSerial_relays [OF False this, of millis] show ?thesis
      by (auto simp: receiver_ready_def)
  qed
  then obtain s2 where s2: "processSerial millis s1 = Some s2" "receiver_ready s2"
    by blast
  have "receiver_ready (checkResetChannels millis s2)"
    using s2(2) by (subst checkResetChannels_frame) (simp add: receiver_ready_def)
  with s1(1) s2(1) show ?thesis
    by (simp add: loop_def)
qed

lemma receive_ready: "receiver_ready (receive bs s) = receiver_ready s"
  by (simp add: receive_def receiver_ready_def)

lemma setup_ready: "receiver_ready (setup_fn s)"
  by (simp add: receiver_ready_def setup_fn_def loadChannelOnTime_def loadMinChannelOffTime_def)

text \<open>
  C6. While a message is being received, a byte other than the end marker is stored
  at the end of the buffer exactly when fewer than 31 bytes are in it; otherwise it is
  dropped: the buffer, its length and the state of the receiver stay as they are, only
  the byte and the time of its arrival are noted, and nothing fails. The end marker is
  stored in the place kept for it, completes the message and ends the receiving. So a
  message that \<open>listenSerial\<close> hands over has at most 32 bytes, its markers counted.
\<close>

theorem accumulate_until_full:
  "(serialMessageActive s \<noteq> 0 \<and> c \<noteq> SERIAL_MSG_END_CHAR \<longrightarrow>
            (\<exists>s'. listenSerial_char millis k c rx s = Some (False, s')
               \<and> s' = (if uint (serialMessageLength s) < 31
                       then s\<lparr>serialLastTime := millis (ListenByte k), serialNextChar := c,
                              serialIn := rx,
                              serialMessageLength := serialMessageLength s + 1,
                              serialData := (serialData s)(unat (serialMessageLength s) := c)\<rparr>
                       else s\<lparr>serialLastTime := millis (ListenByte k), serialNextChar := c,
                              serialIn := rx\<rparr>)
               \<and> message s' = (if uint (serialMessageLength s) < 31 then message s @ [c]
                               else message s)
               \<and> serialMessageActive s' = serialMessageActive s
               \<and> serialMessageAvailable s' = serialMessageAvailable s))
     \<and> (serialMessageActive s \<noteq> 0 \<and> uint (serialMessageLength s) \<le> 31 \<longrightarrow>
            (\<exists>s'. listenSerial_char millis k SERIAL_MSG_END_CHAR rx s = Some (True, s')
               \<and> s' = s\<lparr>serialLastTime := millis (ListenByte k),
                         serialNextChar := SERIAL_MSG_END_CHAR, serialIn := rx,
                         serialMessageLength := serialMessageLength s + 1,
                         serialData := (serialData s)
                            (unat (serialMessageLength s) := SERIAL_MSG_END_CHAR),
                         serialMessageActive := 0, serialMessageAvailable := 1\<rparr>
               \<and> message s' = message s @ [SERIAL_MSG_END_CHAR]
               \<and> length (message s') \<le> 32))
     \<and> (receiver_ready s \<longrightarrow>
            (\<exists>s'. listenSerial millis s = Some s' \<and> length (message s') \<le> 32))"
proof (intro conjI impI)
  assume "serialMessageActive s \<noteq> 0 \<and> c \<noteq> SERIAL_MSG_END_CHAR"
  then have assms: "serialMessageActive s \<noteq> 0" and c: "c \<noteq> SERIAL_MSG_END_CHAR"
    by simp_all
  show "\<exists>s'. listenSerial_char millis k c rx s = Some (False, s')
               \<and> s' = (if uint (serialMessageLength s) < 31
                       then s\<lparr>serialLastTime := millis (ListenByte k), serialNextChar := c,
                              serialIn := rx,
                              serialMessageLength := serialMessageLength s + 1,
                              serialData := (serialData s)(unat (serialMessageLength s) := c)\<rparr>
                       else s\<lparr>serialLastTime := millis (ListenByte k), serialNextChar := c,
                              serialIn := rx\<rparr>)
               \<and> message s' = (if uint (serialMessageLength s) < 31 then message s @ [c]
                               else message s)
               \<and> serialMessageActive s' = serialMessageActive s
               \<and> serialMessageAvailable s' = serialMessageAvailable s"
  proof (cases "uint (serialMessageLength s) < 31")
    case True
    then have lt: "uint (serialMessageLength s) < 32" by simp
    from True show ?thesis
      by (simp add: listenSerial_char_accumulating [OF assms c] message_def
            unat_length_succ [OF lt])
  next
    case False
    then show ?thesis
      by (simp add: listenSerial_char_accumulating [OF assms c] message_def)
  qed
next
  assume "serialMessageActive s \<noteq> 0 \<and> uint (serialMessageLength s) \<le> 31"
  then have assms: "serialMessageActive s \<noteq> 0" and lt: "uint (serialMessageLength s) < 32"
    by simp_all
  then have "unat (serialMessageLength s) < 32"
    unfolding uint_nat by linarith
  with lt show "\<exists>s'. listenSerial_char millis k SERIAL_MSG_END_CHAR rx s = Some (True, s')
               \<and> s' = s\<lparr>serialLastTime := millis (ListenByte k),
                         serialNextChar := SERIAL_MSG_END_CHAR, serialIn := rx,
                         serialMessageLength := serialMessageLength s + 1,
                         serialData := (serialData s)
                            (unat (serialMessageLength s) := SERIAL_MSG_END_CHAR),
                         serialMessageActive := 0, serialMessageAvailable := 1\<rparr>
               \<and> message s' = message s @ [SERIAL_MSG_END_CHAR]
               \<and> length (message s') \<le> 32"
    by (simp add: listenSerial_char_end [OF assms] message_def unat_length_succ [OF lt])
next
  assume "receiver_ready s"
  from listenSerial_ready [OF this, of millis]
  obtain s' where s': "listenSerial millis s = Some s'" "uint (serialMessageLength s') \<le> 32"
    by blast
  from s'(2) have "unat (serialMessageLength s') \<le> 32"
    unfolding uint_nat by linarith
  with s'(1) show "\<exists>s'. listenSerial millis s = Some s' \<and> length (message s') \<le> 32"
    by (simp add: length_message)
qed


theorem accumulate_until_full_witness:
  "(\<exists>s'. listenSerial_char (\<lambda>_. 7) 0 65 []
        (setup_fn (power_on (\<lambda>_. 0))\<lparr>serialMessageActive := 1, serialMessageLength := 3\<rparr>)
        = Some (False, s')
      \<and> serialMessageLength s' = 4 \<and> serialData s' 3 = 65)
   \<and> (\<exists>s'. listenSerial_char (\<lambda>_. 7) 0 65 []
        (setup_fn (power_on (\<lambda>_. 0))\<lparr>serialMessageActive := 1, serialMessageLength := 31\<rparr>)
        = Some (False, s')
      \<and> serialMessageLength s' = 31 \<and> serialData s' = (\<lambda>_. 0) \<and> serialMessageActive s' = 1)
   \<and> (\<exists>s'. listenSerial_char (\<lambda>_. 7) 0 SERIAL_MSG_END_CHAR []
        (setup_fn (power_on (\<lambda>_. 0))\<lparr>serialMessageActive := 1, serialMessageLength := 31\<rparr>)
        = Some (True, s')
      \<and> serialMessageLength s' = 32 \<and> serialData s' 31 = SERIAL_MSG_END_CHAR
      \<and> serialMessageActive s' = 0 \<and> serialMessageAvailable s' = 1)
   \<and> (\<exists>s'. listenSerial (\<lambda>_. 7) (receive (bytes ''<0194>'') (setup_fn (power_on (\<lambda>_. 0))))
        = Some s' \<and> length (message s') \<le> 32)"
proof (intro conjI)
  show "\<exists>s'. listenSerial_char (\<lambda>_. 7) 0 65 []
        (setup_fn (power_on (\<lambda>_. 0))\<lparr>serialMessageActive := 1, serialMessageLength := 3\<rparr>)
        = Some (False, s')
      \<and> serialMessageLength s' = 4 \<and> serialData s' 3 = 65"
    using accumulate_until_full [of "setup_fn (power_on (\<lambda>_. 0))\<lparr>serialMessageActive := 1, serialMessageLength := 3\<rparr>"
        65 "\<lambda>_. 7" 0 "[]"]
    by (simp add: SERIAL_MSG_END_CHAR_def)
  show "\<exists>s'. listenSerial_char (\<lambda>_. 7) 0 65 []
        (setup_fn (power_on (\<lambda>_. 0))\<lparr>serialMessageActive := 1, serialMessageLength := 31\<rparr>)
        = Some (False, s')
      \<and> serialMessageLength s' = 31 \<and> serialData s' = (\<lambda>_. 0) \<and> serialMessageActive s' = 1"
    using accumulate_until_full [of "setup_fn (power_on (\<lambda>_. 0))\<lparr>serialMessageActive := 1, serialMessageLength := 31\<rparr>"
        65 "\<lambda>_. 7" 0 "[]"]
    by (simp add: SERIAL_MSG_END_CHAR_def setup_power_on)
  show "\<exists>s'. listenSerial_char (\<lambda>_. 7) 0 SERIAL_MSG_END_CHAR []
        (setup_fn (power_on (\<lambda>_. 0))\<lparr>serialMessageActive := 1, serialMessageLength := 31\<rparr>)
        = Some (True, s')
      \<and> serialMessageLength s' = 32 \<and> serialData s' 31 = SERIAL_MSG_END_CHAR
      \<and> serialMessageActive s' = 0 \<and> serialMessageAvailable s' = 1"
    using accumulate_until_full [of "setup_fn (power_on (\<lambda>_. 0))\<lparr>serialMessageActive := 1, serialMessageLength := 31\<rparr>"
        65 "\<lambda>_. 7" 0 "[]"]
    by simp
  show "\<exists>s'. listenSerial (\<lambda>_. 7) (receive (bytes ''<0194>'') (setup_fn (power_on (\<lambda>_. 0))))
        = Some s' \<and> length (message s') \<le> 32"
    using accumulate_until_full [of "receive (bytes ''<0194>'') (setup_fn (power_on (\<lambda>_. 0)))"
        65 "\<lambda>_. 7" 0 "[]"]
    by (simp add: receiver_ready_def receive_def setup_power_on)
qed

text \<open>
  C10. A start marker that arrives while a message is being received is stored like
  any other byte, if there is room; the bytes before it stay in the buffer and the
  receiving goes on. Every byte but the end marker leaves the receiving on, and a
  call of \<open>listenSerial\<close> with no end marker in the queue and no time-out leaves it on
  with all the bytes stored, as far as they fit.
\<close>

theorem start_marker_inside_message:
  "(serialMessageActive s \<noteq> 0 \<longrightarrow>
      (\<exists>s'. listenSerial_char millis k SERIAL_MSG_BEGIN_CHAR rx s = Some (False, s')
         \<and> s' = (if uint (serialMessageLength s) < 31
                 then s\<lparr>serialLastTime := millis (ListenByte k),
                        serialNextChar := SERIAL_MSG_BEGIN_CHAR, serialIn := rx,
                        serialMessageLength := serialMessageLength s + 1,
                        serialData := (serialData s)
                           (unat (serialMessageLength s) := SERIAL_MSG_BEGIN_CHAR)\<rparr>
                 else s\<lparr>serialLastTime := millis (ListenByte k),
                        serialNextChar := SERIAL_MSG_BEGIN_CHAR, serialIn := rx\<rparr>)
         \<and> message s' = (if uint (serialMessageLength s) < 31
                         then message s @ [SERIAL_MSG_BEGIN_CHAR] else message s)
         \<and> serialMessageActive s' = serialMessageActive s
         \<and> serialMessageAvailable s' = serialMessageAvailable s))
   \<and> (serialMessageActive s \<noteq> 0 \<and> c \<noteq> SERIAL_MSG_END_CHAR \<longrightarrow>
      (\<exists>s'. listenSerial_char millis k c rx s = Some (False, s')
         \<and> serialMessageActive s' = serialMessageActive s))
   \<and> (serialMessageActive s \<noteq> 0 \<and> uint (serialMessageLength s) \<le> 31
        \<and> SERIAL_MSG_END_CHAR \<notin> set (serialIn s)
        \<and> \<not> 1000 < millis ListenEnd
                    - (if serialIn s = [] then serialLastTime s
                       else millis (ListenByte (length (serialIn s) - 1)))
      \<longrightarrow> (\<exists>s'. listenSerial millis s = Some s'
             \<and> serialMessageActive s' = serialMessageActive s
             \<and> serialMessageAvailable s' = serialMessageAvailable s
             \<and> message s' = take 31 (message s @ serialIn s)))"
proof (intro conjI impI)
  assume active: "serialMessageActive s \<noteq> 0"
  have c: "SERIAL_MSG_BEGIN_CHAR \<noteq> SERIAL_MSG_END_CHAR" by (rule begin_not_end)
  show "\<exists>s'. listenSerial_char millis k SERIAL_MSG_BEGIN_CHAR rx s = Some (False, s')
         \<and> s' = (if uint (serialMessageLength s) < 31
                 then s\<lparr>serialLastTime := millis (ListenByte k),
                        serialNextChar := SERIAL_MSG_BEGIN_CHAR, serialIn := rx,
                        serialMessageLength := serialMessageLength s + 1,
                        serialData := (serialData s)
                           (unat (serialMessageLength s) := SERIAL_MSG_BEGIN_CHAR)\<rparr>
                 else s\<lparr>serialLastTime := millis (ListenByte k),
                        serialNextChar := SERIAL_MSG_BEGIN_CHAR, serialIn := rx\<rparr>)
         \<and> message s' = (if uint (serialMessageLength s) < 31
                         then message s @ [SERIAL_MSG_BEGIN_CHAR] else message s)
         \<and> serialMessageActive s' = serialMessageActive s
         \<and> serialMessageAvailable s' = serialMessageAvailable s"
  proof (cases "uint (serialMessageLength s) < 31")
    case True
    then have lt: "uint (serialMessageLength s) < 32" by simp
    from True show ?thesis
      by (simp add: listenSerial_char_accumulating [OF active c] message_def
            unat_length_succ [OF lt])
  next
    case False
    then show ?thesis
      by (simp add: listenSerial_char_accumulating [OF active c] message_def)
  qed
next
  assume "serialMessageActive s \<noteq> 0 \<and> c \<noteq> SERIAL_MSG_END_CHAR"
  then have active: "serialMessageActive s \<noteq> 0" and c: "c \<noteq> SERIAL_MSG_END_CHAR"
    by simp_all
  show "\<exists>s'. listenSerial_char millis k c rx s = Some (False, s')
         \<and> serialMessageActive s' = serialMessageActive s"
    by (simp add: listenSerial_char_accumulating [OF active c])
next
  assume a: "serialMessageActive s \<noteq> 0 \<and> uint (serialMessageLength s) \<le> 31
        \<and> SERIAL_MSG_END_CHAR \<notin> set (serialIn s)
        \<and> \<not> 1000 < millis ListenEnd
                    - (if serialIn s = [] then serialLastTime s
                       else millis (ListenByte (length (serialIn s) - 1)))"
  then have pre: "serialMessageActive s \<noteq> 0" "SERIAL_MSG_END_CHAR \<notin> set (serialIn s)"
      "uint (serialMessageLength s) \<le> 31"
    by simp_all
  from accumulate_many [OF pre, of millis 0 "[]"]
  obtain s1 where s1: "listenSerial_while millis 0 (serialIn s) s = Some (False, s1)"
      "serialMessageActive s1 = serialMessageActive s"
      "serialMessageAvailable s1 = serialMessageAvailable s"
      "message s1 = take 31 (message s @ serialIn s)"
      "serialLastTime s1
          = (if serialIn s = [] then serialLastTime s
             else millis (ListenByte (length (serialIn s) - 1)))"
    by auto
  from a s1(5) have "\<not> 1000 < millis ListenEnd - serialLastTime s1" by simp
  then have "listenSerial millis s = Some s1"
    by (simp add: listenSerial_def s1(1))
  with s1(2,3,4) show "\<exists>s'. listenSerial millis s = Some s'
             \<and> serialMessageActive s' = serialMessageActive s
             \<and> serialMessageAvailable s' = serialMessageAvailable s
             \<and> message s' = take 31 (message s @ serialIn s)"
    by simp
qed

theorem start_marker_inside_message_witness:
  "(\<exists>s'. listenSerial_char (\<lambda>_. 7) 0 SERIAL_MSG_BEGIN_CHAR []
        (setup_fn (power_on (\<lambda>_. 0))\<lparr>serialMessageActive := 1, serialMessageLength := 3\<rparr>)
        = Some (False, s')
      \<and> serialMessageLength s' = 4 \<and> serialData s' 3 = SERIAL_MSG_BEGIN_CHAR
      \<and> serialMessageActive s' = 1)
   \<and> (\<exists>s'. listenSerial (\<lambda>_. 7)
        (setup_fn (power_on (\<lambda>_. 0))
           \<lparr>serialMessageActive := 1, serialMessageLength := 1, serialIn := bytes ''01<01''\<rparr>)
        = Some s'
      \<and> serialMessageActive s' = 1 \<and> message s' = 0 # bytes ''01<01'')"
proof (intro conjI)
  show "\<exists>s'. listenSerial_char (\<lambda>_. 7) 0 SERIAL_MSG_BEGIN_CHAR []
        (setup_fn (power_on (\<lambda>_. 0))\<lparr>serialMessageActive := 1, serialMessageLength := 3\<rparr>)
        = Some (False, s')
      \<and> serialMessageLength s' = 4 \<and> serialData s' 3 = SERIAL_MSG_BEGIN_CHAR
      \<and> serialMessageActive s' = 1"
    using start_marker_inside_message [of "setup_fn (power_on (\<lambda>_. 0))\<lparr>serialMessageActive := 1, serialMessageLength := 3\<rparr>"
        "\<lambda>_. 7" 0 "[]" 65]
    by simp
  have msg: "message (setup_fn (power_on (\<lambda>_. 0))
           \<lparr>serialMessageActive := 1, serialMessageLength := 1, serialIn := bytes ''01<01''\<rparr>) = [0]"
    by (simp add: message_def setup_power_on)
  show "\<exists>s'. listenSerial (\<lambda>_. 7)
        (setup_fn (power_on (\<lambda>_. 0))
           \<lparr>serialMessageActive := 1, serialMessageLength := 1, serialIn := bytes ''01<01''\<rparr>)
        = Some s'
      \<and> serialMessageActive s' = 1 \<and> message s' = 0 # bytes ''01<01''"
    using start_marker_inside_message [of "setup_fn (power_on (\<lambda>_. 0))
           \<lparr>serialMessageActive := 1, serialMessageLength := 1, serialIn := bytes ''01<01''\<rparr>"
        "\<lambda>_. 7" 0 "[]" 65]
    apply (simp add: msg)
    apply (simp add: bytes_def SERIAL_MSG_END_CHAR_def)
    apply blast
    done
qed

section \<open>A message that stalls\<close>

lemma checkResetChannels_receiver:
  "serialMessageActive (checkResetChannels millis s) = serialMessageActive s"
  "serialMessageLength (checkResetChannels millis s) = serialMessageLength s"
  "serialLastTime (checkResetChannels millis s) = serialLastTime s"
  "serialOut (checkResetChannels millis s) = serialOut s"
  "serialData (checkResetChannels millis s) = serialData s"
  by (subst checkResetChannels_frame, simp)+

text \<open>A round in which \<open>listenSerial\<close> hands over no message.\<close>

lemma loop_no_message:
  assumes "listenSerial millis s = Some s1" and "serialMessageAvailable s1 = 0"
  shows "loop millis s = Some (checkResetChannels millis s1)"
  using assms by (simp add: loop_def processSerial_def)

text \<open>The start of a message and nothing after it, with the clock at \<open>t0\<close>.\<close>

lemma loop_partial_message:
  assumes "serialMessageActive s = 0" and "serialMessageLength s = 0"
    and "serialMessageAvailable s = 0"
    and "serialIn s = SERIAL_MSG_BEGIN_CHAR # p" and "SERIAL_MSG_END_CHAR \<notin> set p"
  shows "\<exists>s1. loop (\<lambda>_. t0) s = Some s1
      \<and> serialOut s1 = serialOut s
      \<and> serialMessageActive s1 = 1 \<and> serialMessageAvailable s1 = 0
      \<and> message s1 = SERIAL_MSG_BEGIN_CHAR # take 30 p
      \<and> serialIn s1 = [] \<and> serialLastTime s1 = t0"
proof -
  from begin_and_payload [OF assms(1,2,5), of "\<lambda>_. t0" "[]"]
  obtain sb where sb: "listenSerial_while (\<lambda>_. t0) 0 (serialIn s) s = Some (False, sb)"
      "same_device s sb" "serialMessageActive sb = 1"
      "serialMessageAvailable sb = serialMessageAvailable s"
      "message sb = SERIAL_MSG_BEGIN_CHAR # take 30 p"
      "serialIn sb = []" "serialLastTime sb = t0"
    unfolding assms(4) by auto
  have listen: "listenSerial (\<lambda>_. t0) s = Some sb"
    by (simp add: listenSerial_def sb(1,7))
  from sb(4) assms(3) have av: "serialMessageAvailable sb = 0" by simp
  have run: "loop (\<lambda>_. t0) s = Some (checkResetChannels (\<lambda>_. t0) sb)"
    by (rule loop_no_message [OF listen av])
  have msg: "message (checkResetChannels (\<lambda>_. t0) sb) = message sb"
    by (simp add: message_def checkResetChannels_receiver)
  from sb(2) have out: "serialOut sb = serialOut s"
    by (simp add: same_device_def)
  show ?thesis
    using run sb(3,5,6,7) av out
    by (simp add: checkResetChannels_receiver checkResetChannels_fields msg)
qed

text \<open>A round without input, more than 1000 ms after the last byte.\<close>

lemma loop_timeout:
  assumes "serialIn s = []" and "serialMessageAvailable s = 0"
    and "1000 < t1 - serialLastTime s"
  shows "\<exists>s2. loop (\<lambda>_. t1) s = Some s2
      \<and> serialOut s2 = serialOut s
      \<and> serialMessageActive s2 = 0 \<and> serialMessageLength s2 = 0
      \<and> serialMessageAvailable s2 = 0 \<and> serialIn s2 = []"
proof -
  have listen: "listenSerial (\<lambda>_. t1) s
      = Some (s\<lparr>serialMessageActive := 0, serialMessageLength := 0\<rparr>)"
    using assms(3) by (simp add: listenSerial_idle [OF assms(1)])
  have "loop (\<lambda>_. t1) s
      = Some (checkResetChannels (\<lambda>_. t1) (s\<lparr>serialMessageActive := 0, serialMessageLength := 0\<rparr>))"
    by (rule loop_no_message [OF listen]) (simp add: assms(2))
  then show ?thesis
    using assms(1,2) by (simp add: checkResetChannels_receiver checkResetChannels_fields)
qed

text \<open>A round that receives a whole command of four characters.\<close>

lemma loop_command:
  assumes "serialMessageActive s = 0" and "serialMessageLength s = 0"
    and "serialIn s = SERIAL_MSG_BEGIN_CHAR # [c1, c2, c3, c4] @ SERIAL_MSG_END_CHAR # rest"
    and "SERIAL_MSG_END_CHAR \<notin> set [c1, c2, c3, c4]"
  shows "\<exists>m s3. listenSerial millis s = Some m
      \<and> serialMessageAvailable m \<noteq> 0
      \<and> message m = [SERIAL_MSG_BEGIN_CHAR, c1, c2, c3, c4, SERIAL_MSG_END_CHAR]
      \<and> readSerialByte 1 m = Some (charToNib c1 * 16 + charToNib c2)
      \<and> readSerialByte 3 m = Some (charToNib c3 * 16 + charToNib c4)
      \<and> loop millis s = Some s3
      \<and> serialOut s3 = serialOut s
           @ [SERIAL_MSG_BEGIN_CHAR, c1, c2, c3, c4, SERIAL_MSG_END_CHAR] @ println_empty"
proof -
  from receive_command [OF assms, of millis]
  obtain m where m: "listenSerial millis s = Some m" "same_device s m"
      "serialMessageAvailable m \<noteq> 0"
      "uint (serialMessageLength m) \<le> SERIAL_MAX_DATA_LENGTH"
      "message m = [SERIAL_MSG_BEGIN_CHAR, c1, c2, c3, c4, SERIAL_MSG_END_CHAR]"
      "readSerialByte 1 m = Some (charToNib c1 * 16 + charToNib c2)"
      "readSerialByte 3 m = Some (charToNib c3 * 16 + charToNib c4)"
    by blast
  from processSerial_relays [OF m(3,4), of millis]
  obtain s2 where s2: "processSerial millis m = Some s2"
      "serialOut s2 = serialOut m @ message m @ println_empty"
    by blast
  from m(2) have out: "serialOut m = serialOut s"
    by (simp add: same_device_def)
  have run: "loop millis s = Some (checkResetChannels millis s2)"
    by (simp add: loop_def m(1) s2(1))
  show ?thesis
    using m(1,3,5,6,7) run s2(2) out
    by (simp add: checkResetChannels_receiver)
qed

text \<open>
  C7. A call of \<open>listenSerial\<close> that finds nothing to read more than 1000 ms after the
  last byte empties the buffer and ends the receiving; it hands over no message and
  sends nothing. At 1000 ms or less it changes nothing. So when \<open><01\<close> arrives in a
  round at \<open>t0\<close>, a round without input follows at \<open>t1\<close>, more than 1000 ms later, and
  \<open><0194>\<close> arrives in a third round, the first two rounds send nothing and leave the
  receiver idle and empty, and the third round processes one message, \<open><0194>\<close> with
  address 1 and command \<open>0x94\<close>, and sends it on.
\<close>

theorem stalled_message_times_out:
  "(serialIn s = [] \<and> 1000 < millis ListenEnd - serialLastTime s
      \<longrightarrow> listenSerial millis s
            = Some (s\<lparr>serialMessageActive := 0, serialMessageLength := 0\<rparr>))
   \<and> (serialIn s = [] \<and> \<not> 1000 < millis ListenEnd - serialLastTime s
      \<longrightarrow> listenSerial millis s = Some s)
   \<and> (serialMessageActive s = 0 \<and> serialMessageLength s = 0
        \<and> serialMessageAvailable s = 0 \<and> serialIn s = [] \<and> 1000 < t1 - t0
      \<longrightarrow> (\<exists>s1 s2 m s3.
             loop (\<lambda>_. t0) (receive (bytes ''<01'') s) = Some s1
           \<and> serialOut s1 = serialOut s \<and> serialMessageActive s1 = 1
           \<and> message s1 = bytes ''<01''
           \<and> loop (\<lambda>_. t1) s1 = Some s2
           \<and> serialOut s2 = serialOut s
           \<and> serialMessageActive s2 = 0 \<and> serialMessageLength s2 = 0
           \<and> listenSerial (\<lambda>_. t2) (receive (bytes ''<0194>'') s2) = Some m
           \<and> serialMessageAvailable m \<noteq> 0
           \<and> message m = bytes ''<0194>''
           \<and> readSerialByte 1 m = Some 1 \<and> readSerialByte 3 m = Some 0x94
           \<and> loop (\<lambda>_. t2) (receive (bytes ''<0194>'') s2) = Some s3
           \<and> serialOut s3 = serialOut s @ bytes ''<0194>'' @ println_empty))"
proof (intro conjI impI)
  assume "serialIn s = [] \<and> 1000 < millis ListenEnd - serialLastTime s"
  then show "listenSerial millis s
            = Some (s\<lparr>serialMessageActive := 0, serialMessageLength := 0\<rparr>)"
    by (simp add: listenSerial_idle)
next
  assume "serialIn s = [] \<and> \<not> 1000 < millis ListenEnd - serialLastTime s"
  then show "listenSerial millis s = Some s"
    by (simp add: listenSerial_idle)
next
  assume a: "serialMessageActive s = 0 \<and> serialMessageLength s = 0
        \<and> serialMessageAvailable s = 0 \<and> serialIn s = [] \<and> 1000 < t1 - t0"
  define r1 where "r1 = receive (bytes ''<01'') s"
  have r1: "serialMessageActive r1 = 0" "serialMessageLength r1 = 0"
      "serialMessageAvailable r1 = 0" "serialIn r1 = SERIAL_MSG_BEGIN_CHAR # [48, 49]"
      "SERIAL_MSG_END_CHAR \<notin> set [48, 49]" "serialOut r1 = serialOut s"
    using a by (simp_all add: r1_def receive_def bytes_def SERIAL_MSG_BEGIN_CHAR_def
          SERIAL_MSG_END_CHAR_def)
  from loop_partial_message [OF r1(1-5), of t0]
  obtain s1 where s1: "loop (\<lambda>_. t0) r1 = Some s1" "serialOut s1 = serialOut r1"
      "serialMessageActive s1 = 1" "serialMessageAvailable s1 = 0"
      "message s1 = SERIAL_MSG_BEGIN_CHAR # take 30 [48, 49]"
      "serialIn s1 = []" "serialLastTime s1 = t0"
    by blast
  from a s1(7) have late: "1000 < t1 - serialLastTime s1" by simp
  from loop_timeout [OF s1(6,4) late]
  obtain s2 where s2: "loop (\<lambda>_. t1) s1 = Some s2" "serialOut s2 = serialOut s1"
      "serialMessageActive s2 = 0" "serialMessageLength s2 = 0"
      "serialMessageAvailable s2 = 0" "serialIn s2 = []"
    by blast
  define r3 where "r3 = receive (bytes ''<0194>'') s2"
  have r3: "serialMessageActive r3 = 0" "serialMessageLength r3 = 0"
      "serialIn r3 = SERIAL_MSG_BEGIN_CHAR # [48, 49, 57, 52] @ SERIAL_MSG_END_CHAR # []"
      "SERIAL_MSG_END_CHAR \<notin> set [48, 49, 57, 52]"
    and out3: "serialOut r3 = serialOut s2"
    using s2(3,4,6) by (simp_all add: r3_def receive_def bytes_def SERIAL_MSG_BEGIN_CHAR_def
          SERIAL_MSG_END_CHAR_def)
  from loop_command [OF r3, of "\<lambda>_. t2"]
  obtain m s3 where m: "listenSerial (\<lambda>_. t2) r3 = Some m"
      "serialMessageAvailable m \<noteq> 0"
      "message m = [SERIAL_MSG_BEGIN_CHAR, 48, 49, 57, 52, SERIAL_MSG_END_CHAR]"
      "readSerialByte 1 m = Some (charToNib 48 * 16 + charToNib 49)"
      "readSerialByte 3 m = Some (charToNib 57 * 16 + charToNib 52)"
      "loop (\<lambda>_. t2) r3 = Some s3"
      "serialOut s3 = serialOut r3
           @ [SERIAL_MSG_BEGIN_CHAR, 48, 49, 57, 52, SERIAL_MSG_END_CHAR] @ println_empty"
    by blast
  have rd: "readSerialByte 1 m = Some 1" "readSerialByte 3 m = Some 0x94"
    using m(4,5) by (simp_all add: charToNib_def)
  have msg1: "message s1 = bytes ''<01''"
    using s1(5) by (simp add: bytes_def SERIAL_MSG_BEGIN_CHAR_def)
  have msg3: "message m = bytes ''<0194>''"
    using m(3) by (simp add: bytes_def SERIAL_MSG_BEGIN_CHAR_def SERIAL_MSG_END_CHAR_def)
  have out: "serialOut s3 = serialOut s @ bytes ''<0194>'' @ println_empty"
    using m(7) out3 s2(2) s1(2) r1(6)
    by (simp add: bytes_def SERIAL_MSG_BEGIN_CHAR_def SERIAL_MSG_END_CHAR_def)
  show "\<exists>s1 s2 m s3.
             loop (\<lambda>_. t0) (receive (bytes ''<01'') s) = Some s1
           \<and> serialOut s1 = serialOut s \<and> serialMessageActive s1 = 1
           \<and> message s1 = bytes ''<01''
           \<and> loop (\<lambda>_. t1) s1 = Some s2
           \<and> serialOut s2 = serialOut s
           \<and> serialMessageActive s2 = 0 \<and> serialMessageLength s2 = 0
           \<and> listenSerial (\<lambda>_. t2) (receive (bytes ''<0194>'') s2) = Some m
           \<and> serialMessageAvailable m \<noteq> 0
           \<and> message m = bytes ''<0194>''
           \<and> readSerialByte 1 m = Some 1 \<and> readSerialByte 3 m = Some 0x94
           \<and> loop (\<lambda>_. t2) (receive (bytes ''<0194>'') s2) = Some s3
           \<and> serialOut s3 = serialOut s @ bytes ''<0194>'' @ println_empty"
    apply (rule exI [of _ s1], rule exI [of _ s2], rule exI [of _ m], rule exI [of _ s3])
    apply (intro conjI)
                 apply (rule s1(1) [unfolded r1_def])
                apply (simp add: s1(2) r1(6))
               apply (rule s1(3))
              apply (rule msg1)
             apply (rule s2(1))
            apply (simp add: s2(2) s1(2) r1(6))
           apply (rule s2(3))
          apply (rule s2(4))
         apply (rule m(1) [unfolded r3_def])
        apply (rule m(2))
       apply (rule msg3)
      apply (rule rd(1))
     apply (rule rd(2))
    apply (rule m(6) [unfolded r3_def])
    apply (rule out)
    done
qed

theorem stalled_message_times_out_witness:
  "\<exists>s1 s2 s3.
      loop (\<lambda>_. 100) (receive (bytes ''<01'') (setup_fn (power_on (\<lambda>_. 0)))) = Some s1
    \<and> serialOut s1 = [] \<and> serialMessageActive s1 = 1
    \<and> loop (\<lambda>_. 1101) s1 = Some s2
    \<and> serialOut s2 = [] \<and> serialMessageActive s2 = 0 \<and> serialMessageLength s2 = 0
    \<and> loop (\<lambda>_. 1200) (receive (bytes ''<0194>'') s2) = Some s3
    \<and> serialOut s3 = bytes ''<0194>'' @ [13, 10]"
proof -
  define s where "s = setup_fn (power_on (\<lambda>_. 0))"
  have h: "serialMessageActive s = 0 \<and> serialMessageLength s = 0
        \<and> serialMessageAvailable s = 0 \<and> serialIn s = [] \<and> (1000 :: ulong) < 1101 - 100"
    by (simp add: s_def setup_power_on)
  have out: "serialOut s = []"
    by (simp add: s_def setup_power_on)
  from stalled_message_times_out [of s "\<lambda>_. 1101" 1101 100 1200] h
  obtain s1 s2 s3 where "loop (\<lambda>_. 100) (receive (bytes ''<01'') s) = Some s1"
      "serialOut s1 = serialOut s" "serialMessageActive s1 = 1"
      "loop (\<lambda>_. 1101) s1 = Some s2"
      "serialOut s2 = serialOut s" "serialMessageActive s2 = 0" "serialMessageLength s2 = 0"
      "loop (\<lambda>_. 1200) (receive (bytes ''<0194>'') s2) = Some s3"
      "serialOut s3 = serialOut s @ bytes ''<0194>'' @ println_empty"
    by blast
  then show ?thesis
    unfolding s_def [symmetric] by (auto simp: out println_empty_def)
qed

section \<open>Messages that are too short or not hexadecimal\<close>

text \<open>
  The three ranges of \<open>charToNib\<close> hold the characters of the table and no others.
\<close>

lemma digit_range:
  fixes ch :: uint8_t
  assumes "48 \<le> ch" and "ch \<le> 57"
  shows "ch \<in> {48, 49, 50, 51, 52, 53, 54, 55, 56, 57}"
proof -
  from assms have "48 \<le> unat ch" "unat ch \<le> 57"
    by (simp_all add: word_le_nat_alt)
  then have "unat ch \<in> {48, 49, 50, 51, 52, 53, 54, 55, 56, 57}"
    by simp arith
  then have "word_of_nat (unat ch) \<in> ((word_of_nat ` {48, 49, 50, 51, 52, 53, 54, 55, 56, 57}) :: uint8_t set)"
    by (rule imageI)
  then show ?thesis by simp
qed

lemma upper_range:
  fixes ch :: uint8_t
  assumes "65 \<le> ch" and "ch \<le> 70"
  shows "ch \<in> {65, 66, 67, 68, 69, 70}"
proof -
  from assms have "65 \<le> unat ch" "unat ch \<le> 70"
    by (simp_all add: word_le_nat_alt)
  then have "unat ch \<in> {65, 66, 67, 68, 69, 70}"
    by simp arith
  then have "word_of_nat (unat ch) \<in> ((word_of_nat ` {65, 66, 67, 68, 69, 70}) :: uint8_t set)"
    by (rule imageI)
  then show ?thesis by simp
qed

lemma lower_range:
  fixes ch :: uint8_t
  assumes "97 \<le> ch" and "ch \<le> 102"
  shows "ch \<in> {97, 98, 99, 100, 101, 102}"
proof -
  from assms have "97 \<le> unat ch" "unat ch \<le> 102"
    by (simp_all add: word_le_nat_alt)
  then have "unat ch \<in> {97, 98, 99, 100, 101, 102}"
    by simp arith
  then have "word_of_nat (unat ch) \<in> ((word_of_nat ` {97, 98, 99, 100, 101, 102}) :: uint8_t set)"
    by (rule imageI)
  then show ?thesis by simp
qed

text \<open>A character that is no hexadecimal digit counts as nibble 0.\<close>

lemma charToNib_other:
  assumes "\<forall>(c, v) \<in> set hex_digit_values. ch \<noteq> of_char c"
  shows "charToNib ch = 0"
proof -
  have no: "ch \<notin> {48, 49, 50, 51, 52, 53, 54, 55, 56, 57}" "ch \<notin> {65, 66, 67, 68, 69, 70}"
      "ch \<notin> {97, 98, 99, 100, 101, 102}"
    using assms by (auto simp: hex_digit_values_def)
  have "\<not> (48 \<le> ch \<and> ch \<le> 57)" using no(1) digit_range [of ch] by blast
  moreover have "\<not> (65 \<le> ch \<and> ch \<le> 70)" using no(2) upper_range [of ch] by blast
  moreover have "\<not> (97 \<le> ch \<and> ch \<le> 102)" using no(3) lower_range [of ch] by blast
  ultimately show ?thesis by (auto simp: charToNib_def)
qed

text \<open>
  C9. \<open>processSerial\<close> reads the buffer at the places 1 to 4 only, which are inside
  its 32 bytes whatever the length of the message, so it returns for every complete
  message, and what it does is given by the address and the command decoded from these
  four places. A character that is no hexadecimal digit, such as \<open>z\<close> or the end
  marker, counts as nibble 0. For the message \<open><zz>\<close> the address is 0 and the command
  is the nibble of the byte at place 4, which the message did not write.
\<close>

theorem malformed_short_message:
  "(serialMessageAvailable s \<noteq> 0 \<and> uint (serialMessageLength s) \<le> SERIAL_MAX_DATA_LENGTH
      \<longrightarrow> readSerialByte 1 s
            = Some (charToNib (serialData s 1) * 16 + charToNib (serialData s 2))
        \<and> readSerialByte 3 s
            = Some (charToNib (serialData s 3) * 16 + charToNib (serialData s 4))
        \<and> processSerial millis s
            = Some ((processSerial_dispatch millis
                       (charToNib (serialData s 1) * 16 + charToNib (serialData s 2))
                       (charToNib (serialData s 3) * 16 + charToNib (serialData s 4)) s)
                    \<lparr>serialOut := serialOut s @ message s @ println_empty,
                     serialMessageAvailable := 0, serialMessageLength := 0\<rparr>))
   \<and> ((\<forall>(c, v) \<in> set hex_digit_values. ch \<noteq> of_char c) \<longrightarrow> charToNib ch = 0)
   \<and> charToNib (of_char CHR ''z'') = 0 \<and> charToNib SERIAL_MSG_END_CHAR = 0
   \<and> (serialMessageActive s = 0 \<and> serialMessageLength s = 0
        \<and> serialIn s = bytes ''<zz>'' @ rest
      \<longrightarrow> (\<exists>m. listenSerial millis1 s = Some m
             \<and> message m = bytes ''<zz>''
             \<and> readSerialByte 1 m = Some 0
             \<and> readSerialByte 3 m = Some (charToNib (serialData s 4))
             \<and> processSerial millis m
                 = Some ((processSerial_dispatch millis 0 (charToNib (serialData s 4)) m)
                         \<lparr>serialOut := serialOut s @ bytes ''<zz>'' @ println_empty,
                          serialMessageAvailable := 0, serialMessageLength := 0\<rparr>)))"
proof (intro conjI impI)
  assume a: "serialMessageAvailable s \<noteq> 0
      \<and> uint (serialMessageLength s) \<le> SERIAL_MAX_DATA_LENGTH"
  show "readSerialByte 1 s
            = Some (charToNib (serialData s 1) * 16 + charToNib (serialData s 2))"
    by (rule readSerialByte_1)
  show "readSerialByte 3 s
            = Some (charToNib (serialData s 3) * 16 + charToNib (serialData s 4))"
    by (rule readSerialByte_3)
  from a show "processSerial millis s
            = Some ((processSerial_dispatch millis
                       (charToNib (serialData s 1) * 16 + charToNib (serialData s 2))
                       (charToNib (serialData s 3) * 16 + charToNib (serialData s 4)) s)
                    \<lparr>serialOut := serialOut s @ message s @ println_empty,
                     serialMessageAvailable := 0, serialMessageLength := 0\<rparr>)"
    by (intro processSerial_available readSerialByte_1 readSerialByte_3) simp_all
next
  assume "\<forall>(c, v) \<in> set hex_digit_values. ch \<noteq> of_char c"
  then show "charToNib ch = 0" by (rule charToNib_other)
next
  show "charToNib (of_char CHR ''z'') = 0"
    by (simp add: charToNib_def)
  show "charToNib SERIAL_MSG_END_CHAR = 0"
    by (simp add: charToNib_def SERIAL_MSG_END_CHAR_def)
next
  assume a: "serialMessageActive s = 0 \<and> serialMessageLength s = 0
        \<and> serialIn s = bytes ''<zz>'' @ rest"
  then have pre: "serialMessageActive s = 0" "serialMessageLength s = 0"
      "serialIn s = SERIAL_MSG_BEGIN_CHAR # [122, 122] @ SERIAL_MSG_END_CHAR # rest"
      "SERIAL_MSG_END_CHAR \<notin> set [122, 122]"
    by (simp_all add: bytes_def SERIAL_MSG_BEGIN_CHAR_def SERIAL_MSG_END_CHAR_def)
  from receive_message [OF pre, of millis1]
  obtain m where m: "listenSerial millis1 s = Some m" "same_device s m"
      "serialMessageAvailable m = 1"
      "message m = SERIAL_MSG_BEGIN_CHAR # take 30 [122, 122] @ [SERIAL_MSG_END_CHAR]"
      "uint (serialMessageLength m) \<le> 32"
      "\<forall>i. unat (serialMessageLength m) \<le> i \<longrightarrow> serialData m i = serialData s i"
    by blast
  have msg: "message m = bytes ''<zz>''"
    using m(4) by (simp add: bytes_def SERIAL_MSG_BEGIN_CHAR_def SERIAL_MSG_END_CHAR_def)
  have buf: "serialData m 1 = 122" "serialData m 2 = 122" "serialData m 3 = SERIAL_MSG_END_CHAR"
    using message_nth [OF m(4), of 1] message_nth [OF m(4), of 2] message_nth [OF m(4), of 3]
    by simp_all
  have "unat (serialMessageLength m) = 4"
    using arg_cong [OF m(4), of length] by (simp add: length_message)
  with m(6) have stale: "serialData m 4 = serialData s 4" by simp
  have rd1: "readSerialByte 1 m = Some 0"
    using buf by (simp add: readSerialByte_1 charToNib_def)
  have rd3: "readSerialByte 3 m = Some (charToNib (serialData s 4))"
    using buf stale
    by (simp add: readSerialByte_3 charToNib_def SERIAL_MSG_END_CHAR_def)
  from m(3,5) have av: "serialMessageAvailable m \<noteq> 0"
      "uint (serialMessageLength m) \<le> SERIAL_MAX_DATA_LENGTH"
    by (simp_all add: SERIAL_MAX_DATA_LENGTH_def)
  from m(2) have out: "serialOut m = serialOut s"
    by (simp add: same_device_def)
  have "processSerial millis m
                 = Some ((processSerial_dispatch millis 0 (charToNib (serialData s 4)) m)
                         \<lparr>serialOut := serialOut s @ bytes ''<zz>'' @ println_empty,
                          serialMessageAvailable := 0, serialMessageLength := 0\<rparr>)"
    using processSerial_available [OF av rd1 rd3, of millis] by (simp add: out msg)
  with m(1) msg rd1 rd3 show "\<exists>m. listenSerial millis1 s = Some m
             \<and> message m = bytes ''<zz>''
             \<and> readSerialByte 1 m = Some 0
             \<and> readSerialByte 3 m = Some (charToNib (serialData s 4))
             \<and> processSerial millis m
                 = Some ((processSerial_dispatch millis 0 (charToNib (serialData s 4)) m)
                         \<lparr>serialOut := serialOut s @ bytes ''<zz>'' @ println_empty,
                          serialMessageAvailable := 0, serialMessageLength := 0\<rparr>)"
    by blast
qed

theorem malformed_short_message_witness:
  "\<exists>m s'. listenSerial (\<lambda>_. 5000)
        (receive (bytes ''<zz>'') (setup_fn (power_on (\<lambda>_. 0)))) = Some m
     \<and> message m = bytes ''<zz>''
     \<and> readSerialByte 1 m = Some 0 \<and> readSerialByte 3 m = Some 0
     \<and> processSerial (\<lambda>_. 5000) m = Some s'
     \<and> channelOnBitmask s' = 0 \<and> serialOut s' = bytes ''<zz>'' @ [13, 10]"
proof -
  define s where "s = receive (bytes ''<zz>'') (setup_fn (power_on (\<lambda>_. 0)))"
  have h: "serialMessageActive s = 0 \<and> serialMessageLength s = 0
        \<and> serialIn s = bytes ''<zz>'' @ []"
    by (simp add: s_def receive_def setup_power_on)
  have s: "serialData s 4 = 0" "serialOut s = []" "channelOnBitmask s = 0"
      "deviceAddress s = 0"
    by (simp_all add: s_def receive_def setup_power_on DEVICE_ADDRESS_def)
  from malformed_short_message [of s "\<lambda>_. 5000" 0 "[]" "\<lambda>_. 5000"] h
  obtain m where m: "listenSerial (\<lambda>_. 5000) s = Some m" "message m = bytes ''<zz>''"
      "readSerialByte 1 m = Some 0"
      "readSerialByte 3 m = Some (charToNib (serialData s 4))"
      "processSerial (\<lambda>_. 5000) m
                 = Some ((processSerial_dispatch (\<lambda>_. 5000) 0 (charToNib (serialData s 4)) m)
                         \<lparr>serialOut := serialOut s @ bytes ''<zz>'' @ println_empty,
                          serialMessageAvailable := 0, serialMessageLength := 0\<rparr>)"
    by blast
  have z: "charToNib (serialData s 4) = 0"
    by (simp add: s(1) charToNib_def)
  have "channel i (processSerial_dispatch (\<lambda>_. 5000) 0 0 m) = channel i m" for i
    by (simp add: processSerial_dispatch_channel)
  then have "bit (channelOnBitmask (processSerial_dispatch (\<lambda>_. 5000) 0 0 m)) i
      = bit (channelOnBitmask m) i" for i
    by (simp add: channel_def)
  then have same: "channelOnBitmask (processSerial_dispatch (\<lambda>_. 5000) 0 0 m) = channelOnBitmask m"
    by (simp add: bit_eq_iff)
  have dev: "same_device s m"
    using receive_message [of s "[122, 122]" "[]" "\<lambda>_. 5000"] h m(1)
    by (auto simp: bytes_def SERIAL_MSG_BEGIN_CHAR_def SERIAL_MSG_END_CHAR_def)
  then have "channelOnBitmask m = 0"
    using s(3) by (simp add: same_device_def)
  with m z same s(2) show ?thesis
    unfolding s_def [symmetric] by (auto simp: println_empty_def)
qed

end
